theory Spec2Isabelle
  imports
    Main
    "HOL-Library.Char_ord"
    "HOL-Library.List_Lexorder"
    "HOL-Library.Product_Lexorder"
    "HOL-Library.Multiset"
    "HOL-Library.AList"
begin

section \<open>JavaScript values, errors and results\<close>

text \<open>
  The pool manager \<^verbatim>\<open>TorPool\<close> is a JavaScript class. Its objects have identity and
  are mutated in place, so the model keeps them in stores: an object is named by its
  address (its index in the store) and a mutation is an update of the store at that
  address. Plain data inside a configuration object (strings, numbers, nested values)
  is a tree of values.
\<close>

type_synonym addr = nat

datatype jsval =
    JUndefined
  | JNull
  | JBool bool
  | JNum int
  | JStr string
  | JArr "jsval list"
  | JObj "(string \<times> jsval) list"

text \<open>An object is its list of properties in insertion order.\<close>

type_synonym js_object = "(string \<times> jsval) list"

text \<open>
  What is thrown. \<^verbatim>\<open>Error\<close> is \<^verbatim>\<open>new Error(message)\<close>; \<^verbatim>\<open>TypeError\<close> and
  \<^verbatim>\<open>ReferenceError\<close> are raised by the language itself (a property read on
  \<^verbatim>\<open>undefined\<close>, a call of a non-function, an undeclared identifier);
  \<^verbatim>\<open>Thrown\<close> is a thrown value that is not an Error object.
\<close>

datatype js_error =
    Error string
  | TypeError string
  | ReferenceError string
  | Thrown string

text \<open>
  The result of an \<^verbatim>\<open>async\<close> method: the promise resolves, rejects, or is never
  settled.
\<close>

datatype 'a outcome = Resolved 'a | Rejected js_error | Pending

text \<open>Truthiness, as \<^verbatim>\<open>||\<close>, \<^verbatim>\<open>&&\<close> and \<^verbatim>\<open>!\<close> test it.\<close>

fun truthy :: "jsval \<Rightarrow> bool" where
  "truthy JUndefined = False"
| "truthy JNull = False"
| "truthy (JBool b) = b"
| "truthy (JNum n) = (n \<noteq> 0)"
| "truthy (JStr s) = (s \<noteq> [])"
| "truthy (JArr vs) = True"
| "truthy (JObj kvs) = True"

text \<open>A string-valued property that may be \<^verbatim>\<open>undefined\<close>: truthy when it is a non-empty string.\<close>

fun truthy_str :: "string option \<Rightarrow> bool" where
  "truthy_str None = False"
| "truthy_str (Some s) = (s \<noteq> [])"

definition get_prop :: "js_object \<Rightarrow> string \<Rightarrow> jsval" where
  "get_prop obj k = (case map_of obj k of None \<Rightarrow> JUndefined | Some v \<Rightarrow> v)"

definition set_prop :: "js_object \<Rightarrow> string \<Rightarrow> jsval \<Rightarrow> js_object" where
  "set_prop obj k v = AList.update k v obj"

text \<open>The double quote, for the messages that contain it.\<close>

definition dquote :: string where
  "dquote = [CHR 0x22]"

section \<open>Library functions the pool calls\<close>

text \<open>
  The functions of \<^verbatim>\<open>lodash\<close> the pool calls, as that library documents them, and
  the array methods of the language.
\<close>

text \<open>\<^verbatim>\<open>_.cloneDeep\<close>: a structural copy of a value.\<close>

primrec cloneDeep :: "jsval \<Rightarrow> jsval" where
  "cloneDeep JUndefined = JUndefined"
| "cloneDeep JNull = JNull"
| "cloneDeep (JBool b) = JBool b"
| "cloneDeep (JNum n) = JNum n"
| "cloneDeep (JStr s) = JStr s"
| "cloneDeep (JArr vs) = JArr (map cloneDeep vs)"
| "cloneDeep (JObj kvs) = JObj (map (map_prod id cloneDeep) kvs)"

definition cloneDeep_object :: "js_object \<Rightarrow> js_object" where
  "cloneDeep_object obj = map (map_prod id cloneDeep) obj"

text \<open>
  \<^verbatim>\<open>_.extend(dst, src)\<close>: for every key of \<^verbatim>\<open>src\<close>, in order,
  \<^verbatim>\<open>dst[key] = src[key]\<close>; it returns \<^verbatim>\<open>dst\<close>.
\<close>

definition lodash_extend :: "js_object \<Rightarrow> js_object \<Rightarrow> js_object" where
  "lodash_extend dst src = fold (\<lambda>key obj. set_prop obj key (get_prop src key)) (map fst src) dst"

text \<open>\<^verbatim>\<open>_.uniq\<close> keeps the first occurrence of every element.\<close>

fun lodash_uniq :: "'a list \<Rightarrow> 'a list" where
  "lodash_uniq [] = []"
| "lodash_uniq (x # xs) = x # lodash_uniq (filter (\<lambda>y. y \<noteq> x) xs)"

definition lodash_union :: "'a list \<Rightarrow> 'a list \<Rightarrow> 'a list" where
  "lodash_union xs ys = lodash_uniq (xs @ ys)"

text \<open>
  \<^verbatim>\<open>_.remove(array, predicate)\<close> removes in place every element the predicate holds
  for; on \<^verbatim>\<open>undefined\<close> it does nothing.
\<close>

definition lodash_remove :: "'a list option \<Rightarrow> ('a \<Rightarrow> bool) \<Rightarrow> 'a list option" where
  "lodash_remove arr pred =
     (case arr of None \<Rightarrow> None | Some xs \<Rightarrow> Some (filter (\<lambda>x. \<not> pred x) xs))"

text \<open>
  \<^verbatim>\<open>_.sortBy(xs, key)\<close> is a stable ascending sort; its comparison puts
  \<^verbatim>\<open>undefined\<close> after every string and compares strings by character code.
\<close>

definition name_key :: "string option \<Rightarrow> bool \<times> string" where
  "name_key n = (case n of None \<Rightarrow> (True, []) | Some s \<Rightarrow> (False, s))"

definition lodash_sortBy :: "('a \<Rightarrow> string option) \<Rightarrow> 'a list \<Rightarrow> 'a list" where
  "lodash_sortBy f xs = sort_key (\<lambda>x. name_key (f x)) xs"

section \<open>Arrays\<close>

text \<open>
  The remainder operator \<^verbatim>\<open>%\<close> on integers truncates towards zero: the result has
  the sign of the dividend. A zero divisor gives \<^verbatim>\<open>NaN\<close>, which the callers below
  treat apart.
\<close>

definition js_rem :: "int \<Rightarrow> int \<Rightarrow> int" where
  "js_rem a b = sgn a * (\<bar>a\<bar> mod \<bar>b\<bar>)"

text \<open>\<^verbatim>\<open>x >>> 0\<close> and \<^verbatim>\<open>x >> 0\<close> on an integer.\<close>

definition to_uint32 :: "int \<Rightarrow> int" where
  "to_uint32 x = x mod 4294967296"

definition to_int32 :: "int \<Rightarrow> int" where
  "to_int32 x = (x + 2147483648) mod 4294967296 - 2147483648"

text \<open>
  \<^verbatim>\<open>Array.prototype.splice(start, deleteCount)\<close>: a negative start counts from the
  end, both arguments are clamped to the array; it returns the removed elements and
  leaves the others in the array.
\<close>

definition array_splice :: "'a list \<Rightarrow> int \<Rightarrow> int \<Rightarrow> 'a list \<times> 'a list" where
  "array_splice xs start deleteCount =
     (let len = int (length xs);
          actualStart = (if start < 0 then max (len + start) 0 else min start len);
          actualDeleteCount = min (max deleteCount 0) (len - actualStart)
      in (take (nat actualDeleteCount) (drop (nat actualStart) xs),
          take (nat actualStart) xs @ drop (nat (actualStart + actualDeleteCount)) xs))"

text \<open>
  \<^verbatim>\<open>Array.prototype.rotate\<close>, the patch the file installs. On an empty array
  \<^verbatim>\<open>count % len\<close> is \<^verbatim>\<open>NaN\<close>, which \<^verbatim>\<open>splice\<close> reads as a delete count of
  zero.
\<close>

definition array_rotate :: "'a list \<Rightarrow> int \<Rightarrow> 'a list" where
  "array_rotate this count0 =
     (let len = to_uint32 (int (length this));
          count1 = to_int32 count0;
          count = (if len = 0 then 0 else js_rem (js_rem count1 len + len) len);
          (removed, rest) = array_splice this 0 count
      in rest @ removed)"

section \<open>The data model\<close>

text \<open>
  An instance definition, the object a caller hands to \<^verbatim>\<open>create_instance\<close>. Every
  field may be \<^verbatim>\<open>undefined\<close>; \<^verbatim>\<open>Config\<close> refers to a configuration object.
\<close>

record instance_definition =
  Name :: "string option"
  Config :: "addr option"
  Group :: "string list option"
  Weight :: jsval

text \<open>
  Modelled from the spec: the Instance Handle \<^verbatim>\<open>TorProcess\<close> (\<^verbatim>\<open>./TorProcess\<close> is
  not among the sources). The spec gives its readable attributes: \<^verbatim>\<open>id\<close>, assigned
  by the pool after construction, \<^verbatim>\<open>definition\<close>, the definition object it was
  constructed with, \<^verbatim>\<open>instance_name\<close> and \<^verbatim>\<open>instance_group\<close>, the name and the
  label set of that definition.
\<close>

record tor_process =
  proc_id :: "string option"
  proc_definition :: addr

text \<open>
  The entries \<^verbatim>\<open>[id, Weight, instance]\<close> a \<^verbatim>\<open>WeightedList\<close> is built from; the
  model of a \<^verbatim>\<open>WeightedList\<close> object is the list of its entries.
\<close>

type_synonym wl_entry = "string option \<times> jsval \<times> addr"

definition entry_data :: "wl_entry \<Rightarrow> addr" where
  "entry_data e = snd (snd e)"

text \<open>
  The package \<^verbatim>\<open>js-weighted-list\<close> is not part of the repository: its constructor
  (which may throw on the entries it is given) and its random draw \<^verbatim>\<open>peek(n)\<close> are
  parameters. The first argument of \<^verbatim>\<open>wl_peek\<close> stands for the random source.
\<close>

record weighted_list_lib =
  wl_new_error :: "wl_entry list \<Rightarrow> js_error option"
  wl_peek :: "nat \<Rightarrow> wl_entry list \<Rightarrow> nat \<Rightarrow> js_error + wl_entry list"

text \<open>
  The array \<^verbatim>\<open>_instances\<close> together with the property \<^verbatim>\<open>_weighted_list\<close> the
  weighted method attaches to it. A new array has no such property.
\<close>

record instances_array =
  elems :: "addr list"
  weighted_list :: "wl_entry list option"

datatype default_config =
    ConfigFunction "unit \<Rightarrow> js_object"
  | ConfigObject addr
  | ConfigFalsy

record tor_pool =
  priv_instances :: instances_array
  priv_default_tor_config :: default_config
  data_directory :: string
  load_balance_method :: string
  tor_path :: string

text \<open>
  The state: the pool, the stores of instance handles, definitions and configuration
  objects (an address is an index), the directories that exist, and the instances
  announced by \<^verbatim>\<open>instance_created\<close>. A reference a live object holds always names
  an object; a property that depends on it assumes that the address lies in its store.
\<close>

record world =
  pool :: tor_pool
  procs :: "tor_process list"
  defs :: "instance_definition list"
  cfgs :: "js_object list"
  fs_dirs :: "string list"
  emitted :: "addr list"

definition new_TorPool ::
  "string \<Rightarrow> default_config \<Rightarrow> string \<Rightarrow> string \<Rightarrow> js_error + tor_pool" where
  "new_TorPool torpath default_cfg data_dir method =
     (if data_dir = [] then Inl (Error (''Invalid '' @ dquote @ ''data_directory'' @ dquote))
      else Inr \<lparr> priv_instances = \<lparr> elems = [], weighted_list = None \<rparr>,
                 priv_default_tor_config = default_cfg,
                 data_directory = data_dir,
                 load_balance_method = method,
                 tor_path = torpath \<rparr>)"

text \<open>The state in which a newly constructed pool starts.\<close>

definition initial_world :: "tor_pool \<Rightarrow> world" where
  "initial_world p = \<lparr> pool = p, procs = [], defs = [], cfgs = [], fs_dirs = [], emitted = [] \<rparr>"

definition set_instances :: "instances_array \<Rightarrow> world \<Rightarrow> world" where
  "set_instances arr w = w\<lparr> pool := (pool w)\<lparr> priv_instances := arr \<rparr> \<rparr>"

text \<open>\<^verbatim>\<open>this._instances._weighted_list = void(0)\<close>\<close>

definition invalidate_weighted_list :: "world \<Rightarrow> world" where
  "invalidate_weighted_list w =
     set_instances ((priv_instances (pool w))\<lparr> weighted_list := None \<rparr>) w"

definition alloc_cfg :: "js_object \<Rightarrow> world \<Rightarrow> addr \<times> world" where
  "alloc_cfg obj w = (length (cfgs w), w\<lparr> cfgs := cfgs w @ [obj] \<rparr>)"

definition alloc_proc :: "tor_process \<Rightarrow> world \<Rightarrow> addr \<times> world" where
  "alloc_proc p w = (length (procs w), w\<lparr> procs := procs w @ [p] \<rparr>)"

text \<open>
  Modelled from the spec: the handle's attribute \<^verbatim>\<open>definition\<close> (\<^verbatim>\<open>./TorProcess\<close>
  is not among the sources), the definition object the handle was constructed with.
\<close>

definition definition_of :: "world \<Rightarrow> addr \<Rightarrow> instance_definition" where
  "definition_of w i = defs w ! proc_definition (procs w ! i)"

text \<open>
  Modelled from the spec: the handle's attribute \<^verbatim>\<open>instance_name\<close>
  (\<^verbatim>\<open>./TorProcess\<close> is not among the sources), the name of its definition.
\<close>

definition instance_name :: "world \<Rightarrow> addr \<Rightarrow> string option" where
  "instance_name w i = Name (definition_of w i)"

text \<open>
  Modelled from the spec: the handle's attribute \<^verbatim>\<open>instance_group\<close>
  (\<^verbatim>\<open>./TorProcess\<close> is not among the sources), the label set of its definition,
  empty when the definition has none.
\<close>

definition instance_group :: "world \<Rightarrow> addr \<Rightarrow> string list" where
  "instance_group w i = (case Group (definition_of w i) of None \<Rightarrow> [] | Some g \<Rightarrow> g)"

section \<open>The pool's getters\<close>

text \<open>\<^verbatim>\<open>get instances()\<close>: a copy of the array's elements.\<close>

definition instances :: "world \<Rightarrow> addr list" where
  "instances w = elems (priv_instances (pool w))"

definition instance_names :: "world \<Rightarrow> string option list" where
  "instance_names w = map (instance_name w) (instances w)"

text \<open>
  \<^verbatim>\<open>get group_names()\<close>: the labels in use, without duplicates, sorted. A label list
  is an array and so passes \<^verbatim>\<open>filter(Boolean)\<close>.
\<close>

definition group_names :: "world \<Rightarrow> string list" where
  "group_names w = sort (lodash_uniq (concat (map (instance_group w) (instances w))))"

text \<open>
  \<^verbatim>\<open>get default_tor_config()\<close>: the result of the generator, a deep copy of the
  stored object, or a new empty object.
\<close>

definition default_tor_config :: "world \<Rightarrow> addr \<times> world" where
  "default_tor_config w =
     (case priv_default_tor_config (pool w) of
        ConfigFunction f \<Rightarrow> alloc_cfg (f ()) w
      | ConfigObject a \<Rightarrow> alloc_cfg (cloneDeep_object (cfgs w ! a)) w
      | ConfigFalsy \<Rightarrow> alloc_cfg [] w)"

definition instance_by_name :: "world \<Rightarrow> string \<Rightarrow> addr option" where
  "instance_by_name w name =
     (case filter (\<lambda>i. instance_name w i = Some name) (elems (priv_instances (pool w))) of
        [] \<Rightarrow> None
      | i # rest \<Rightarrow> Some i)"

definition array_index :: "'a list \<Rightarrow> int \<Rightarrow> 'a option" where
  "array_index xs i = (if 0 \<le> i \<and> i < int (length xs) then Some (xs ! nat i) else None)"

definition instance_at :: "world \<Rightarrow> int \<Rightarrow> addr option" where
  "instance_at w index = array_index (elems (priv_instances (pool w))) index"

text \<open>\<^verbatim>\<open>Array.prototype.indexOf\<close>\<close>

definition array_indexOf :: "'a list \<Rightarrow> 'a \<Rightarrow> int" where
  "array_indexOf xs x =
     (if x \<in> set xs then int (length (takeWhile (\<lambda>y. y \<noteq> x) xs)) else - 1)"

section \<open>Groups\<close>

definition not_found_message :: "string \<Rightarrow> string" where
  "not_found_message name = ''Instance '' @ dquote @ name @ dquote @ '' not found''"

definition set_group :: "addr \<Rightarrow> string list option \<Rightarrow> world \<Rightarrow> world" where
  "set_group i g w =
     (let d = proc_definition (procs w ! i)
      in w\<lparr> defs := (defs w)[d := (defs w ! d)\<lparr> Group := g \<rparr>] \<rparr>)"

text \<open>
  The instance argument of the group operations is whatever the caller passes;
  \<^verbatim>\<open>None\<close> is \<^verbatim>\<open>undefined\<close>, on which the property read throws.
\<close>

definition add_instance_to_group :: "string \<Rightarrow> addr option \<Rightarrow> world \<Rightarrow> js_error + world" where
  "add_instance_to_group grp inst w =
     (case inst of
        None \<Rightarrow> Inl (TypeError ''Cannot read properties of undefined'')
      | Some i \<Rightarrow> Inr (set_group i (Some (lodash_union (instance_group w i) [grp])) w))"

definition add_instance_to_group_by_name :: "string \<Rightarrow> string \<Rightarrow> world \<Rightarrow> js_error + world" where
  "add_instance_to_group_by_name grp name w =
     (case instance_by_name w name of
        None \<Rightarrow> Inl (Error (not_found_message name))
      | Some i \<Rightarrow> add_instance_to_group grp (Some i) w)"

definition remove_instance_from_group :: "string \<Rightarrow> addr option \<Rightarrow> world \<Rightarrow> js_error + world" where
  "remove_instance_from_group grp inst w =
     (case inst of
        None \<Rightarrow> Inl (TypeError ''Cannot read properties of undefined'')
      | Some i \<Rightarrow>
          Inr (set_group i (lodash_remove (Group (definition_of w i)) (\<lambda>g. g = grp)) w))"

definition remove_instance_from_group_by_name ::
  "string \<Rightarrow> string \<Rightarrow> world \<Rightarrow> js_error + world" where
  "remove_instance_from_group_by_name grp name w =
     (case instance_by_name w name of
        None \<Rightarrow> Inl (Error (not_found_message name))
      | Some i \<Rightarrow> remove_instance_from_group grp (Some i) w)"

text \<open>
  A group view: what \<^verbatim>\<open>pool.groups[prop]\<close> returns, the sorted array with its
  \<^verbatim>\<open>group_name\<close>; the operations of the proxy around it follow.
\<close>

record group_view =
  view_instances :: "addr list"
  group_name :: string

definition groups :: "world \<Rightarrow> string \<Rightarrow> group_view" where
  "groups w prop =
     (let instances_in_group =
            (if prop \<in> set (group_names w)
             then filter (\<lambda>i. prop \<in> set (instance_group w i)) (instances w)
             else [])
      in \<lparr> view_instances = lodash_sortBy (instance_name w) instances_in_group,
           group_name = prop \<rparr>)"

definition view_at :: "group_view \<Rightarrow> int \<Rightarrow> addr option" where
  "view_at v n = array_index (view_instances v) n"

definition view_length :: "group_view \<Rightarrow> nat" where
  "view_length v = length (view_instances v)"

definition view_add :: "group_view \<Rightarrow> addr option \<Rightarrow> world \<Rightarrow> js_error + world" where
  "view_add v inst w = add_instance_to_group (group_name v) inst w"

definition view_add_by_name :: "group_view \<Rightarrow> string \<Rightarrow> world \<Rightarrow> js_error + world" where
  "view_add_by_name v name w = add_instance_to_group_by_name (group_name v) name w"

definition view_remove :: "group_view \<Rightarrow> addr option \<Rightarrow> world \<Rightarrow> js_error + world" where
  "view_remove v inst w = remove_instance_from_group (group_name v) inst w"

definition view_remove_by_name :: "group_view \<Rightarrow> string \<Rightarrow> world \<Rightarrow> js_error + world" where
  "view_remove_by_name v name w = remove_instance_from_group_by_name (group_name v) name w"

definition view_remove_at :: "group_view \<Rightarrow> int \<Rightarrow> world \<Rightarrow> js_error + world" where
  "view_remove_at v instance_index w =
     remove_instance_from_group (group_name v) (view_at v instance_index) w"

section \<open>Load balancing\<close>

text \<open>
  A load-balance method receives the array \<^verbatim>\<open>_instances\<close> and returns an array or
  throws. It may also change the array it was given; the second component is that
  array as the call leaves it.
\<close>

type_synonym lb_method = "instances_array \<Rightarrow> (js_error + instances_array) \<times> instances_array"

text \<open>\<^verbatim>\<open>round_robin\<close> rotates the array in place and returns it.\<close>

definition round_robin :: lb_method where
  "round_robin arr = (let arr' = arr\<lparr> elems := array_rotate (elems arr) 1 \<rparr> in (Inr arr', arr'))"

text \<open>
  \<^verbatim>\<open>weighted\<close> builds the list \<^verbatim>\<open>_weighted_list\<close> when the array has none, draws as
  many entries as the array has elements, and returns a new array of the drawn
  instances that carries the same list.
\<close>

definition weighted_entries :: "world \<Rightarrow> addr list \<Rightarrow> wl_entry list" where
  "weighted_entries w xs = map (\<lambda>i. (proc_id (procs w ! i), Weight (definition_of w i), i)) xs"

definition weighted :: "weighted_list_lib \<Rightarrow> nat \<Rightarrow> world \<Rightarrow> lb_method" where
  "weighted lib rnd w arr =
     (case weighted_list arr of
        Some wl \<Rightarrow>
          (case wl_peek lib rnd wl (length (elems arr)) of
             Inl e \<Rightarrow> (Inl e, arr)
           | Inr picked \<Rightarrow>
               (Inr \<lparr> elems = map entry_data picked, weighted_list = Some wl \<rparr>, arr))
      | None \<Rightarrow>
          (let entries = weighted_entries w (elems arr) in
           case wl_new_error lib entries of
             Some e \<Rightarrow> (Inl e, arr)
           | None \<Rightarrow>
               (let arr1 = arr\<lparr> weighted_list := Some entries \<rparr> in
                case wl_peek lib rnd entries (length (elems arr1)) of
                  Inl e \<Rightarrow> (Inl e, arr1)
                | Inr picked \<Rightarrow>
                    (Inr \<lparr> elems = map entry_data picked, weighted_list = Some entries \<rparr>,
                     arr1))))"

text \<open>\<^verbatim>\<open>TorPool.load_balance_methods[name]\<close>; any other name gives \<^verbatim>\<open>undefined\<close>.\<close>

definition load_balance_methods ::
  "weighted_list_lib \<Rightarrow> nat \<Rightarrow> world \<Rightarrow> string \<Rightarrow> lb_method option" where
  "load_balance_methods lib rnd w name =
     (if name = ''round_robin'' then Some round_robin
      else if name = ''weighted'' then Some (weighted lib rnd w)
      else None)"

text \<open>
  \<^verbatim>\<open>next()\<close>: the pool's array becomes what the method returns, and the result is
  the first element of the new array (\<^verbatim>\<open>undefined\<close>, here \<^verbatim>\<open>None\<close>, when it has
  none).
\<close>

definition next_instance ::
  "weighted_list_lib \<Rightarrow> nat \<Rightarrow> world \<Rightarrow> (js_error + addr option) \<times> world" where
  "next_instance lib rnd w =
     (case load_balance_methods lib rnd w (load_balance_method (pool w)) of
        None \<Rightarrow> (Inl (TypeError ''load_balance_methods[...] is not a function''), w)
      | Some f \<Rightarrow>
          (case f (priv_instances (pool w)) of
             (Inl e, arr) \<Rightarrow> (Inl e, set_instances arr w)
           | (Inr arr', arr) \<Rightarrow>
               (let w' = set_instances arr' w in (Inr (array_index (instances w') 0), w'))))"

section \<open>Creating an instance\<close>

text \<open>
  What the outside world contributes to one call of \<^verbatim>\<open>create_instance\<close>: whether
  \<^verbatim>\<open>fs.mkdirAsync\<close> fails, the id \<^verbatim>\<open>nanoid()\<close> returns, \<^verbatim>\<open>path.join\<close>, whether the
  handle's \<^verbatim>\<open>create()\<close> rejects, and which of \<^verbatim>\<open>ready\<close> and \<^verbatim>\<open>error\<close> the handle
  emits first once the pool listens (or neither: the promise then stays pending).
\<close>

datatype startup_signal = Ready | ErrorSignal js_error | NoSignal

record creation_env =
  mkdir_error :: "js_error option"
  nanoid_result :: string
  path_join :: "string \<Rightarrow> string \<Rightarrow> string"
  create_error :: "js_error option"
  signalled :: startup_signal

text \<open>Lines 232-233: create the data directory when it does not exist.\<close>

definition ensure_data_directory :: "creation_env \<Rightarrow> world \<Rightarrow> js_error + world" where
  "ensure_data_directory env w =
     (if data_directory (pool w) \<in> set (fs_dirs w) then Inr w
      else case mkdir_error env of
             Some e \<Rightarrow> Inl e
           | None \<Rightarrow> Inr (w\<lparr> fs_dirs := data_directory (pool w) # fs_dirs w \<rparr>))"

text \<open>
  Line 235:
  \<^verbatim>\<open>instance_definition.Name && this.instance_names.indexOf(instance_definition.Name) !== -1\<close>
\<close>

definition name_exists :: "world \<Rightarrow> string option \<Rightarrow> bool" where
  "name_exists w name = (truthy_str name \<and> name \<in> set (instance_names w))"

definition already_exists_message :: "string option \<Rightarrow> string" where
  "already_exists_message name =
     ''Instance named '' @ (case name of None \<Rightarrow> ''undefined'' | Some n \<Rightarrow> n) @ '' already exists''"

text \<open>
  Line 239:
  \<^verbatim>\<open>instance_definition.Config = _.extend(_.cloneDeep(this.default_tor_config), (instance_definition.Config || {}))\<close>.
  The result is the address of the new configuration object, now the definition's
  \<^verbatim>\<open>Config\<close>.
\<close>

definition merge_config :: "addr \<Rightarrow> world \<Rightarrow> addr \<times> world" where
  "merge_config d w =
     (let (c0, w1) = default_tor_config w;
          (c, w2) = alloc_cfg (cloneDeep_object (cfgs w1 ! c0)) w1;
          src = (case Config (defs w2 ! d) of None \<Rightarrow> [] | Some a \<Rightarrow> cfgs w2 ! a);
          w3 = w2\<lparr> cfgs := (cfgs w2)[c := lodash_extend (cfgs w2 ! c) src] \<rparr>
      in (c, w3\<lparr> defs := (defs w3)[d := (defs w3 ! d)\<lparr> Config := Some c \<rparr>] \<rparr>))"

text \<open>\<^verbatim>\<open>instance_definition.Name || instance_id\<close>\<close>

definition name_or_id :: "string option \<Rightarrow> string \<Rightarrow> string" where
  "name_or_id name instance_id =
     (case name of None \<Rightarrow> instance_id | Some n \<Rightarrow> if n \<noteq> [] then n else instance_id)"

text \<open>
  Line 241:
  \<^verbatim>\<open>instance_definition.Config.DataDirectory = instance_definition.Config.DataDirectory || path.join(this.data_directory, (instance_definition.Name || instance_id))\<close>,
  where \<^verbatim>\<open>c\<close> is the object \<^verbatim>\<open>instance_definition.Config\<close>.
\<close>

definition assign_data_directory :: "creation_env \<Rightarrow> string \<Rightarrow> addr \<Rightarrow> addr \<Rightarrow> world \<Rightarrow> world" where
  "assign_data_directory env instance_id d c w =
     (let current = get_prop (cfgs w ! c) ''DataDirectory'';
          v = (if truthy current then current
               else JStr (path_join env (data_directory (pool w))
                            (name_or_id (Name (defs w ! d)) instance_id)))
      in w\<lparr> cfgs := (cfgs w)[c := set_prop (cfgs w ! c) ''DataDirectory'' v] \<rparr>)"

text \<open>
  Modelled from the spec: the constructor of the Instance Handle (\<^verbatim>\<open>./TorProcess\<close> is
  not among the sources) takes the daemon path, the definition, the control options and
  the logger and returns a handle on that definition; it is the allocation in the
  function below. Lines 243-245 are \<^verbatim>\<open>new TorProcess(...)\<close> on the caller's
  definition, then \<^verbatim>\<open>instance.id = instance_id\<close>.
\<close>

definition new_TorProcess :: "string \<Rightarrow> addr \<Rightarrow> world \<Rightarrow> addr \<times> world" where
  "new_TorProcess instance_id d w =
     (let (i, w1) = alloc_proc \<lparr> proc_id = None, proc_definition = d \<rparr> w
      in (i, w1\<lparr> procs := (procs w1)[i := (procs w1 ! i)\<lparr> proc_id := Some instance_id \<rparr>] \<rparr>))"

text \<open>Line 249: \<^verbatim>\<open>this._instances.push(instance)\<close>\<close>

definition push_instance :: "addr \<Rightarrow> world \<Rightarrow> world" where
  "push_instance i w =
     set_instances ((priv_instances (pool w))\<lparr> elems := elems (priv_instances (pool w)) @ [i] \<rparr>) w"

text \<open>
  Lines 238-245, from the invalidation of the weighted list to the new handle with its
  id: what a call does between the name check and \<^verbatim>\<open>await instance.create()\<close>.
\<close>

definition prepare_instance :: "creation_env \<Rightarrow> addr \<Rightarrow> world \<Rightarrow> addr \<times> world" where
  "prepare_instance env d w1 =
     (let w2 = invalidate_weighted_list w1;
          (c, w3) = merge_config d w2;
          instance_id = nanoid_result env;
          w4 = assign_data_directory env instance_id d c w3
      in new_TorProcess instance_id d w4)"

text \<open>
  \<^verbatim>\<open>create_instance(instance_definition)\<close>, with the definition given by its address
  \<^verbatim>\<open>d\<close>, as one call from its start to its end when nothing else runs while it
  waits (the parts a call is made of when other code runs in between come after the
  removals). The instance is pushed when \<^verbatim>\<open>instance.create()\<close> has resolved; the
  promise returned then waits for \<^verbatim>\<open>error\<close> or \<^verbatim>\<open>ready\<close>.
\<close>

definition create_instance :: "creation_env \<Rightarrow> addr \<Rightarrow> world \<Rightarrow> addr outcome \<times> world" where
  "create_instance env d w0 =
     (case ensure_data_directory env w0 of
        Inl e \<Rightarrow> (Rejected e, w0)
      | Inr w1 \<Rightarrow>
          if name_exists w1 (Name (defs w1 ! d))
          then (Rejected (Error (already_exists_message (Name (defs w1 ! d)))), w1)
          else
            (let (i, w5) = prepare_instance env d w1
             in case create_error env of
                  Some e \<Rightarrow> (Rejected e, w5)
                | None \<Rightarrow>
                    (let w6 = push_instance i w5
                     in case signalled env of
                          ErrorSignal e \<Rightarrow> (Rejected e, w6)
                        | Ready \<Rightarrow> (Resolved i, w6\<lparr> emitted := emitted w6 @ [i] \<rparr>)
                        | NoSignal \<Rightarrow> (Pending, w6))))"

section \<open>Removing instances\<close>

text \<open>
  The outside world's part in a removal is the result of each handle's \<^verbatim>\<open>exit()\<close>:
  \<^verbatim>\<open>None\<close> when it resolves, the error when it rejects.
  \<^verbatim>\<open>Promise.all\<close> over the exits rejects with a rejection among them (the model
  takes the first in array order) and resolves when there is none.
\<close>

type_synonym exit_env = "addr \<Rightarrow> js_error option"

definition promise_all_exit :: "exit_env \<Rightarrow> addr list \<Rightarrow> js_error option" where
  "promise_all_exit ex xs =
     (case filter (\<lambda>i. ex i \<noteq> None) xs of [] \<Rightarrow> None | i # rest \<Rightarrow> ex i)"

definition outcome_of :: "js_error option \<Rightarrow> unit outcome" where
  "outcome_of r = (case r of None \<Rightarrow> Resolved () | Some e \<Rightarrow> Rejected e)"

definition pool_remove :: "exit_env \<Rightarrow> int \<Rightarrow> world \<Rightarrow> unit outcome \<times> world" where
  "pool_remove ex n w =
     (let w1 = invalidate_weighted_list w;
          arr = priv_instances (pool w1);
          (instances_to_remove, rest) = array_splice (elems arr) 0 n;
          w2 = set_instances (arr\<lparr> elems := rest \<rparr>) w1
      in (outcome_of (promise_all_exit ex instances_to_remove), w2))"

definition remove_at :: "exit_env \<Rightarrow> int \<Rightarrow> world \<Rightarrow> unit outcome \<times> world" where
  "remove_at ex instance_index w =
     (let w1 = invalidate_weighted_list w;
          arr = priv_instances (pool w1);
          (removed, rest) = array_splice (elems arr) instance_index 1;
          w2 = set_instances (arr\<lparr> elems := rest \<rparr>) w1
      in case removed of
           [] \<Rightarrow> (Rejected (TypeError ''Cannot read properties of undefined''), w2)
         | i # others \<Rightarrow> (outcome_of (ex i), w2))"

text \<open>
  \<^verbatim>\<open>remove_by_name(instance_name)\<close>. The message of its error is the template
  \<^verbatim>\<open>`Instance "${name}" not found`\<close>, and no variable \<^verbatim>\<open>name\<close> is in scope there
  (the parameter is \<^verbatim>\<open>instance_name\<close>): evaluating the template throws a
  \<^verbatim>\<open>ReferenceError\<close> before the \<^verbatim>\<open>Error\<close> is constructed.
\<close>

definition remove_by_name :: "exit_env \<Rightarrow> string \<Rightarrow> world \<Rightarrow> unit outcome \<times> world" where
  "remove_by_name ex name w =
     (case instance_by_name w name of
        None \<Rightarrow> (Rejected (ReferenceError ''name is not defined''), w)
      | Some i \<Rightarrow> remove_at ex (array_indexOf (instances w) i) w)"

text \<open>
  \<^verbatim>\<open>exit()\<close> as one call: when every exit has resolved, \<^verbatim>\<open>_instances\<close> becomes a
  new empty array.
\<close>

definition pool_exit :: "exit_env \<Rightarrow> world \<Rightarrow> unit outcome \<times> world" where
  "pool_exit ex w =
     (case promise_all_exit ex (elems (priv_instances (pool w))) of
        Some e \<Rightarrow> (Rejected e, w)
      | None \<Rightarrow> (Resolved (), set_instances \<lparr> elems = [], weighted_list = None \<rparr> w))"

section \<open>Calls that are suspended\<close>

text \<open>
  An \<^verbatim>\<open>async\<close> method runs until it awaits, and goes on later: in between, the
  caller and any other code run, \<^verbatim>\<open>next()\<close> among them, which is synchronous.
  \<^verbatim>\<open>create_instance\<close> awaits \<^verbatim>\<open>fs.mkdirAsync\<close> on line 233 (when the directory is
  missing), \<^verbatim>\<open>instance.create()\<close> on line 247 and the promise of lines 251-258;
  \<^verbatim>\<open>exit\<close> awaits the exits of the instances on line 311, before it replaces the
  array on line 312. \<^verbatim>\<open>remove\<close> and \<^verbatim>\<open>remove_at\<close> await only after their last
  change of the state, and \<^verbatim>\<open>remove_by_name\<close> awaits \<^verbatim>\<open>remove_at\<close>, so each of
  them changes the state in one piece.

  A suspended call is the place where it waits with what it holds there: the definition
  for the wait on \<^verbatim>\<open>mkdirAsync\<close>, the instance for the waits on \<^verbatim>\<open>create()\<close> and
  on the signal, and for \<^verbatim>\<open>exit\<close> the instances whose exits it has called.
\<close>

datatype suspended =
    AtMkdir addr
  | AtCreate addr
  | AtSignal addr
  | AtExit "addr list"

datatype 'a progress = Done "'a outcome" | Suspended suspended

text \<open>Lines 235-247: from the name check to \<^verbatim>\<open>await instance.create()\<close>.\<close>

definition create_checked :: "creation_env \<Rightarrow> addr \<Rightarrow> world \<Rightarrow> addr progress \<times> world" where
  "create_checked env d w1 =
     (if name_exists w1 (Name (defs w1 ! d))
      then (Done (Rejected (Error (already_exists_message (Name (defs w1 ! d))))), w1)
      else (let (i, w5) = prepare_instance env d w1 in (Suspended (AtCreate i), w5)))"

text \<open>
  The start of \<^verbatim>\<open>create_instance\<close>: lines 232-233, and on without a stop when the
  directory exists.
\<close>

definition create_begin :: "creation_env \<Rightarrow> addr \<Rightarrow> world \<Rightarrow> addr progress \<times> world" where
  "create_begin env d w0 =
     (if data_directory (pool w0) \<in> set (fs_dirs w0) then create_checked env d w0
      else (Suspended (AtMkdir d), w0))"

text \<open>
  A suspended \<^verbatim>\<open>create_instance\<close> goes on, in the state of that moment, with what
  the outside world answers: after \<^verbatim>\<open>mkdirAsync\<close> with the name check, after
  \<^verbatim>\<open>create()\<close> with the push of line 249, after the signal with the end of the call.
  Without a signal it waits on.
\<close>

fun create_resume :: "creation_env \<Rightarrow> suspended \<Rightarrow> world \<Rightarrow> addr progress \<times> world" where
  "create_resume env (AtMkdir d) w =
     (case mkdir_error env of
        Some e \<Rightarrow> (Done (Rejected e), w)
      | None \<Rightarrow> create_checked env d (w\<lparr> fs_dirs := data_directory (pool w) # fs_dirs w \<rparr>))"
| "create_resume env (AtCreate i) w =
     (case create_error env of
        Some e \<Rightarrow> (Done (Rejected e), w)
      | None \<Rightarrow> (Suspended (AtSignal i), push_instance i w))"
| "create_resume env (AtSignal i) w =
     (case signalled env of
        ErrorSignal e \<Rightarrow> (Done (Rejected e), w)
      | Ready \<Rightarrow> (Done (Resolved i), w\<lparr> emitted := emitted w @ [i] \<rparr>)
      | NoSignal \<Rightarrow> (Suspended (AtSignal i), w))"
| "create_resume env (AtExit xs) w = (Suspended (AtExit xs), w)"

text \<open>
  \<^verbatim>\<open>exit()\<close> in two parts: line 311 calls the exits of the instances the array has
  and waits; line 312 runs when all of them have resolved.
\<close>

definition exit_begin :: "world \<Rightarrow> unit progress \<times> world" where
  "exit_begin w = (Suspended (AtExit (elems (priv_instances (pool w)))), w)"

fun exit_resume :: "exit_env \<Rightarrow> suspended \<Rightarrow> world \<Rightarrow> unit progress \<times> world" where
  "exit_resume ex (AtExit xs) w =
     (case promise_all_exit ex xs of
        Some e \<Rightarrow> (Done (Rejected e), w)
      | None \<Rightarrow> (Done (Resolved ()), set_instances \<lparr> elems = [], weighted_list = None \<rparr> w))"
| "exit_resume ex (AtMkdir d) w = (Suspended (AtMkdir d), w)"
| "exit_resume ex (AtCreate i) w = (Suspended (AtCreate i), w)"
| "exit_resume ex (AtSignal i) w = (Suspended (AtSignal i), w)"

text \<open>
  A call that nothing interrupts: its parts one after the other. What a call that is
  still suspended has returned is a pending promise.
\<close>

fun outcome_so_far :: "'a progress \<Rightarrow> 'a outcome" where
  "outcome_so_far (Done r) = r"
| "outcome_so_far (Suspended t) = Pending"

fun create_resumes ::
  "nat \<Rightarrow> creation_env \<Rightarrow> addr progress \<times> world \<Rightarrow> addr progress \<times> world" where
  "create_resumes 0 env pw = pw"
| "create_resumes (Suc n) env (Done r, w) = (Done r, w)"
| "create_resumes (Suc n) env (Suspended t, w) = create_resumes n env (create_resume env t w)"

section \<open>Sequences of calls\<close>

text \<open>
  The pool with the calls that are suspended. An operation is a call on the pool, or
  the continuation of the suspended call at a position of the list, each with what the
  outside world contributes to it; \<^verbatim>\<open>step\<close> is the state it leaves (a group
  operation that throws, and a continuation of a call that is not there, leave the state
  as it was), and \<^verbatim>\<open>run\<close> makes the operations of a list one after the other, in
  any order the list gives.
\<close>

record system =
  the_world :: world
  tasks :: "suspended list"

datatype pool_op =
    CreateInstance creation_env addr
  | Resume creation_env nat
  | Remove exit_env int
  | RemoveAt exit_env int
  | RemoveByName exit_env string
  | Exit
  | ResumeExit exit_env nat
  | Next nat
  | AddToGroup string "addr option"
  | RemoveFromGroup string "addr option"

fun keep_on_error :: "world \<Rightarrow> js_error + world \<Rightarrow> world" where
  "keep_on_error w (Inl e) = w"
| "keep_on_error w (Inr w') = w'"

text \<open>A call has started: it has ended, or it joins the suspended calls.\<close>

definition begun :: "system \<Rightarrow> 'a progress \<times> world \<Rightarrow> system" where
  "begun s pw =
     (case fst pw of
        Done r \<Rightarrow> \<lparr> the_world = snd pw, tasks = tasks s \<rparr>
      | Suspended t \<Rightarrow> \<lparr> the_world = snd pw, tasks = tasks s @ [t] \<rparr>)"

text \<open>The suspended call at position \<open>k\<close> has gone on: it has ended, or it waits again.\<close>

definition resumed :: "nat \<Rightarrow> system \<Rightarrow> 'a progress \<times> world \<Rightarrow> system" where
  "resumed k s pw =
     (case fst pw of
        Done r \<Rightarrow> \<lparr> the_world = snd pw, tasks = take k (tasks s) @ drop (Suc k) (tasks s) \<rparr>
      | Suspended t \<Rightarrow> \<lparr> the_world = snd pw, tasks = (tasks s)[k := t] \<rparr>)"

fun step :: "weighted_list_lib \<Rightarrow> pool_op \<Rightarrow> system \<Rightarrow> system" where
  "step lib (CreateInstance env d) s = begun s (create_begin env d (the_world s))"
| "step lib (Resume env k) s =
     (if k < length (tasks s) then resumed k s (create_resume env (tasks s ! k) (the_world s))
      else s)"
| "step lib (Remove ex n) s = s\<lparr> the_world := snd (pool_remove ex n (the_world s)) \<rparr>"
| "step lib (RemoveAt ex n) s = s\<lparr> the_world := snd (remove_at ex n (the_world s)) \<rparr>"
| "step lib (RemoveByName ex name) s = s\<lparr> the_world := snd (remove_by_name ex name (the_world s)) \<rparr>"
| "step lib Exit s = begun s (exit_begin (the_world s))"
| "step lib (ResumeExit ex k) s =
     (if k < length (tasks s) then resumed k s (exit_resume ex (tasks s ! k) (the_world s))
      else s)"
| "step lib (Next rnd) s = s\<lparr> the_world := snd (next_instance lib rnd (the_world s)) \<rparr>"
| "step lib (AddToGroup grp inst) s =
     s\<lparr> the_world := keep_on_error (the_world s) (add_instance_to_group grp inst (the_world s)) \<rparr>"
| "step lib (RemoveFromGroup grp inst) s =
     s\<lparr> the_world :=
         keep_on_error (the_world s) (remove_instance_from_group grp inst (the_world s)) \<rparr>"

definition run :: "weighted_list_lib \<Rightarrow> pool_op list \<Rightarrow> system \<Rightarrow> system" where
  "run lib ops s = fold (step lib) ops s"

text \<open>Consecutive calls of \<^verbatim>\<open>next()\<close>, with the results in the order of the calls.\<close>

fun next_calls ::
  "weighted_list_lib \<Rightarrow> nat list \<Rightarrow> world \<Rightarrow> (js_error + addr option) list \<times> world" where
  "next_calls lib [] w = ([], w)"
| "next_calls lib (r # rs) w =
     (let (x, w1) = next_instance lib r w;
          (xs, w2) = next_calls lib rs w1
      in (x # xs, w2))"

section \<open>Notions the properties are stated with\<close>

text \<open>
  A call of \<^verbatim>\<open>create_instance\<close> gets past the data directory and the name check.
\<close>

definition passes_checks :: "creation_env \<Rightarrow> addr \<Rightarrow> world \<Rightarrow> bool" where
  "passes_checks env d w =
     (case ensure_data_directory env w of
        Inl e \<Rightarrow> False
      | Inr w1 \<Rightarrow> \<not> name_exists w1 (Name (defs w1 ! d)))"

text \<open>
  The references a call of \<^verbatim>\<open>create_instance\<close> follows name objects that exist: the
  definition, its \<^verbatim>\<open>Config\<close> when it has one, and the stored default configuration
  when it is an object.
\<close>

definition valid_refs :: "world \<Rightarrow> addr \<Rightarrow> bool" where
  "valid_refs w d =
     (d < length (defs w) \<and>
      (case Config (defs w ! d) of None \<Rightarrow> True | Some a \<Rightarrow> a < length (cfgs w)) \<and>
      (case priv_default_tor_config (pool w) of
         ConfigFunction f \<Rightarrow> True
       | ConfigObject a \<Rightarrow> a < length (cfgs w)
       | ConfigFalsy \<Rightarrow> True))"

text \<open>
  The spec's words for the two operands of the merge: the default configuration (what
  the generator produces, the stored object, or nothing) and the instance's explicit
  override map (empty when the definition has none).
\<close>

definition default_content :: "world \<Rightarrow> js_object" where
  "default_content w =
     (case priv_default_tor_config (pool w) of
        ConfigFunction f \<Rightarrow> f ()
      | ConfigObject a \<Rightarrow> cfgs w ! a
      | ConfigFalsy \<Rightarrow> [])"

definition override_content :: "world \<Rightarrow> addr \<Rightarrow> js_object" where
  "override_content w d = (case Config (defs w ! d) of None \<Rightarrow> [] | Some a \<Rightarrow> cfgs w ! a)"

text \<open>
  The weighted list attached to the pool's array, when there is one, was built for the
  members the array has now.
\<close>

definition weighted_list_ok :: "world \<Rightarrow> bool" where
  "weighted_list_ok w =
     (case weighted_list (priv_instances (pool w)) of
        None \<Rightarrow> True
      | Some wl \<Rightarrow> mset (map entry_data wl) = mset (elems (priv_instances (pool w))))"

text \<open>
  What is assumed of \<^verbatim>\<open>js-weighted-list\<close>: drawing as many entries as the list has
  returns the entries of the list, in some order.
\<close>

definition peek_permutes :: "weighted_list_lib \<Rightarrow> bool" where
  "peek_permutes lib =
     (\<forall>rnd wl picked. wl_peek lib rnd wl (length wl) = Inr picked \<longrightarrow> mset picked = mset wl)"

text \<open>
  The operations that can add or remove members of the pool: the calls, and the
  continuations in which a suspended \<^verbatim>\<open>create_instance\<close> pushes and a suspended
  \<^verbatim>\<open>exit\<close> empties the array.
\<close>

fun is_membership_op :: "pool_op \<Rightarrow> bool" where
  "is_membership_op (CreateInstance env d) = True"
| "is_membership_op (Resume env k) = True"
| "is_membership_op (Remove ex n) = True"
| "is_membership_op (RemoveAt ex n) = True"
| "is_membership_op (RemoveByName ex name) = True"
| "is_membership_op Exit = True"
| "is_membership_op (ResumeExit ex k) = True"
| "is_membership_op (Next rnd) = False"
| "is_membership_op (AddToGroup grp inst) = False"
| "is_membership_op (RemoveFromGroup grp inst) = False"

text \<open>
  A creation is between its invalidation of the weighted list (line 238) and its push
  (line 249): some suspended call waits on \<^verbatim>\<open>instance.create()\<close>.
\<close>

fun is_at_create :: "suspended \<Rightarrow> bool" where
  "is_at_create (AtCreate i) = True"
| "is_at_create (AtMkdir d) = False"
| "is_at_create (AtSignal i) = False"
| "is_at_create (AtExit xs) = False"

definition creating :: "suspended list \<Rightarrow> bool" where
  "creating ts = (filter is_at_create ts \<noteq> [])"

text \<open>
  The state the amended claim keeps: the weighted list was built for the members the
  array has, and there is none while a creation is between its invalidation and its
  push.
\<close>

definition creation_safe :: "system \<Rightarrow> bool" where
  "creation_safe s =
     (if creating (tasks s) then weighted_list (priv_instances (pool (the_world s))) = None
      else weighted_list_ok (the_world s))"

text \<open>A selection under the weighted method.\<close>

fun is_weighted_selection :: "pool_op \<Rightarrow> system \<Rightarrow> bool" where
  "is_weighted_selection (Next rnd) s = (load_balance_method (pool (the_world s)) = ''weighted'')"
| "is_weighted_selection (CreateInstance env d) s = False"
| "is_weighted_selection (Resume env k) s = False"
| "is_weighted_selection (Remove ex n) s = False"
| "is_weighted_selection (RemoveAt ex n) s = False"
| "is_weighted_selection (RemoveByName ex name) s = False"
| "is_weighted_selection Exit s = False"
| "is_weighted_selection (ResumeExit ex k) s = False"
| "is_weighted_selection (AddToGroup grp inst) s = False"
| "is_weighted_selection (RemoveFromGroup grp inst) s = False"

text \<open>
  In a sequence of operations, no selection under the weighted method runs while a
  creation is between its invalidation and its push.
\<close>

fun selection_apart :: "weighted_list_lib \<Rightarrow> pool_op list \<Rightarrow> system \<Rightarrow> bool" where
  "selection_apart lib [] s = True"
| "selection_apart lib (op # ops) s =
     (\<not> (is_weighted_selection op s \<and> creating (tasks s)) \<and>
      selection_apart lib ops (step lib op s))"

text \<open>
  The calls of a sequence are taken one at a time: a call starts only when no call is
  suspended.
\<close>

fun is_resume :: "pool_op \<Rightarrow> bool" where
  "is_resume (Resume env k) = True"
| "is_resume (ResumeExit ex k) = True"
| "is_resume (CreateInstance env d) = False"
| "is_resume (Remove ex n) = False"
| "is_resume (RemoveAt ex n) = False"
| "is_resume (RemoveByName ex name) = False"
| "is_resume Exit = False"
| "is_resume (Next rnd) = False"
| "is_resume (AddToGroup grp inst) = False"
| "is_resume (RemoveFromGroup grp inst) = False"

fun one_at_a_time :: "weighted_list_lib \<Rightarrow> pool_op list \<Rightarrow> system \<Rightarrow> bool" where
  "one_at_a_time lib [] s = True"
| "one_at_a_time lib (op # ops) s =
     ((is_resume op \<or> tasks s = []) \<and> one_at_a_time lib ops (step lib op s))"

section \<open>A concrete pool\<close>

text \<open>
  Three running instances A, B and C, created in this order, and three definitions not
  yet in use: D, a second definition named A, and one without a name.
\<close>

definition example_lib :: weighted_list_lib where
  "example_lib =
     \<lparr> wl_new_error = (\<lambda>entries. None),
       wl_peek = (\<lambda>rnd wl n.
          if length wl < n then Inl (Thrown ''Stack underflow'') else Inr (rev (take n wl))) \<rparr>"

definition example_world :: world where
  "example_world =
     \<lparr> pool = \<lparr> priv_instances = \<lparr> elems = [0, 1, 2], weighted_list = None \<rparr>,
                priv_default_tor_config = ConfigObject 0,
                data_directory = ''/t'',
                load_balance_method = ''round_robin'',
                tor_path = ''tor'' \<rparr>,
       procs = [\<lparr> proc_id = Some ''a1'', proc_definition = 0 \<rparr>,
                \<lparr> proc_id = Some ''b2'', proc_definition = 1 \<rparr>,
                \<lparr> proc_id = Some ''c3'', proc_definition = 2 \<rparr>],
       defs = [\<lparr> Name = Some ''A'', Config = Some 1, Group = Some [''g''], Weight = JNum 1 \<rparr>,
               \<lparr> Name = Some ''B'', Config = Some 2, Group = Some [''g'', ''h''], Weight = JNum 100 \<rparr>,
               \<lparr> Name = Some ''C'', Config = Some 3, Group = None, Weight = JNum 1 \<rparr>,
               \<lparr> Name = Some ''D'', Config = Some 4, Group = None, Weight = JUndefined \<rparr>,
               \<lparr> Name = Some ''A'', Config = None, Group = None, Weight = JUndefined \<rparr>,
               \<lparr> Name = None, Config = None, Group = None, Weight = JUndefined \<rparr>],
       cfgs = [[(''Log'', JStr ''notice''), (''P'', JStr ''10'')],
               [(''Log'', JStr ''notice''), (''P'', JStr ''10''), (''DataDirectory'', JStr ''/t/A'')],
               [(''Log'', JStr ''notice''), (''P'', JStr ''10''), (''DataDirectory'', JStr ''/t/B'')],
               [(''Log'', JStr ''notice''), (''P'', JStr ''10''), (''DataDirectory'', JStr ''/t/C'')],
               [(''P'', JStr ''20'')]],
       fs_dirs = [''/t''],
       emitted = [0, 1, 2] \<rparr>"

definition example_env :: creation_env where
  "example_env =
     \<lparr> mkdir_error = None,
       nanoid_result = ''d4'',
       path_join = (\<lambda>a b. a @ ''/'' @ b),
       create_error = None,
       signalled = Ready \<rparr>"

text \<open>The same, with a handle that signals \<^verbatim>\<open>error\<close> instead of \<^verbatim>\<open>ready\<close>.\<close>

definition example_env_failing :: creation_env where
  "example_env_failing = example_env\<lparr> signalled := ErrorSignal (Error ''failed'') \<rparr>"

definition example_exits :: exit_env where
  "example_exits = (\<lambda>i. None)"

text \<open>The same pool when C and the unused third definition both carry the empty name.\<close>

definition example_world_blank :: world where
  "example_world_blank =
     example_world\<lparr> defs := (defs example_world)
        [2 := (defs example_world ! 2)\<lparr> Name := Some [] \<rparr>,
         5 := (defs example_world ! 5)\<lparr> Name := Some [] \<rparr>] \<rparr>"

text \<open>The same pool under the weighted method.\<close>

definition example_world_weighted :: world where
  "example_world_weighted =
     example_world\<lparr> pool := (pool example_world)\<lparr> load_balance_method := ''weighted'' \<rparr> \<rparr>"

text \<open>The pool under the weighted method with no call suspended.\<close>

definition example_system :: system where
  "example_system = \<lparr> the_world = example_world_weighted, tasks = [] \<rparr>"

section \<open>Properties of the operations\<close>

subsection \<open>What each step of a creation leaves alone\<close>

lemma set_instances_fields [simp]:
  "priv_instances (pool (set_instances arr w)) = arr"
  "priv_default_tor_config (pool (set_instances arr w)) = priv_default_tor_config (pool w)"
  "data_directory (pool (set_instances arr w)) = data_directory (pool w)"
  "load_balance_method (pool (set_instances arr w)) = load_balance_method (pool w)"
  "procs (set_instances arr w) = procs w"
  "defs (set_instances arr w) = defs w"
  "cfgs (set_instances arr w) = cfgs w"
  "fs_dirs (set_instances arr w) = fs_dirs w"
  "emitted (set_instances arr w) = emitted w"
  "instances (set_instances arr w) = elems arr"
  by (simp_all add: set_instances_def instances_def)

lemma invalidate_fields [simp]:
  "elems (priv_instances (pool (invalidate_weighted_list w))) = elems (priv_instances (pool w))"
  "weighted_list (priv_instances (pool (invalidate_weighted_list w))) = None"
  "priv_default_tor_config (pool (invalidate_weighted_list w)) = priv_default_tor_config (pool w)"
  "data_directory (pool (invalidate_weighted_list w)) = data_directory (pool w)"
  "load_balance_method (pool (invalidate_weighted_list w)) = load_balance_method (pool w)"
  "procs (invalidate_weighted_list w) = procs w"
  "defs (invalidate_weighted_list w) = defs w"
  "cfgs (invalidate_weighted_list w) = cfgs w"
  "fs_dirs (invalidate_weighted_list w) = fs_dirs w"
  "emitted (invalidate_weighted_list w) = emitted w"
  "instances (invalidate_weighted_list w) = instances w"
  by (simp_all add: invalidate_weighted_list_def instances_def)

lemma push_instance_fields [simp]:
  "instances (push_instance i w) = instances w @ [i]"
  "weighted_list (priv_instances (pool (push_instance i w))) = weighted_list (priv_instances (pool w))"
  "priv_default_tor_config (pool (push_instance i w)) = priv_default_tor_config (pool w)"
  "procs (push_instance i w) = procs w"
  "defs (push_instance i w) = defs w"
  "cfgs (push_instance i w) = cfgs w"
  "fs_dirs (push_instance i w) = fs_dirs w"
  by (simp_all add: push_instance_def instances_def)

lemma instances_emitted: "instances (w\<lparr> emitted := e \<rparr>) = instances w"
  by (simp add: instances_def)

lemma ensure_data_directory_fields:
  assumes "ensure_data_directory env w = Inr w1"
  shows "pool w1 = pool w" "procs w1 = procs w" "defs w1 = defs w" "cfgs w1 = cfgs w"
    "emitted w1 = emitted w"
    "fs_dirs w1 = (if data_directory (pool w) \<in> set (fs_dirs w) then fs_dirs w
                   else data_directory (pool w) # fs_dirs w)"
  using assms by (auto simp: ensure_data_directory_def split: if_splits option.splits)

lemma cloneDeep_id [simp]: "cloneDeep v = v"
  by (induction v) (auto intro!: map_idI simp: prod.map_ident)

lemma cloneDeep_object_id [simp]: "cloneDeep_object obj = obj"
  by (auto simp: cloneDeep_object_def intro!: map_idI)

lemma default_tor_config_eq:
  "default_tor_config w = (length (cfgs w), w\<lparr> cfgs := cfgs w @ [default_content w] \<rparr>)"
  by (simp add: default_tor_config_def alloc_cfg_def default_content_def split: default_config.splits)

lemma merge_config_eq:
  "merge_config d w =
     (Suc (length (cfgs w)),
      w\<lparr> cfgs := cfgs w @ [default_content w,
             lodash_extend (default_content w)
               (case Config (defs w ! d) of None \<Rightarrow> []
                | Some a \<Rightarrow> (cfgs w @ [default_content w, default_content w]) ! a)],
         defs := (defs w)[d := (defs w ! d)\<lparr> Config := Some (Suc (length (cfgs w))) \<rparr>] \<rparr>)"
  by (cases "Config (defs w ! d)")
    (simp_all add: merge_config_def default_tor_config_eq alloc_cfg_def Let_def list_update_append)

lemma fold_update_lookup:
  "map_of (fold (\<lambda>key obj. AList.update key (g key) obj) ks dst) k =
     (if k \<in> set ks then Some (g k) else map_of dst k)"
  by (induction ks arbitrary: dst) (auto simp: update_conv')

lemma lodash_extend_lookup: "map_of (lodash_extend dst src) = map_of dst ++ map_of src"
proof
  fix k
  show "map_of (lodash_extend dst src) k = (map_of dst ++ map_of src) k"
  proof (cases "map_of src k")
    case None
    then have "k \<notin> set (map fst src)" by (simp add: map_of_eq_None_iff)
    with None show ?thesis
      by (simp add: lodash_extend_def set_prop_def fold_update_lookup map_add_def)
  next
    case (Some v)
    then have "k \<in> set (map fst src)" by (metis map_of_eq_None_iff option.distinct(1) set_map)
    with Some show ?thesis
      by (simp add: lodash_extend_def set_prop_def fold_update_lookup map_add_def get_prop_def)
  qed
qed

lemma default_content_invalidate [simp]:
  "default_content (invalidate_weighted_list w) = default_content w"
  by (simp add: default_content_def split: default_config.splits)

lemma Name_after_Config_update:
  "Name (xs[d := (xs ! d)\<lparr> Config := c \<rparr>] ! d) = Name (xs ! d)"
  by (cases "d < length xs") (simp_all add: list_update_beyond)

lemma prepare_instance_frame:
  "fst (prepare_instance env d w) = length (procs w)"
  "instances (snd (prepare_instance env d w)) = instances w"
  "weighted_list (priv_instances (pool (snd (prepare_instance env d w)))) = None"
  "priv_default_tor_config (pool (snd (prepare_instance env d w))) = priv_default_tor_config (pool w)"
  "data_directory (pool (snd (prepare_instance env d w))) = data_directory (pool w)"
  "load_balance_method (pool (snd (prepare_instance env d w))) = load_balance_method (pool w)"
  "procs (snd (prepare_instance env d w)) =
     procs w @ [\<lparr> proc_id = Some (nanoid_result env), proc_definition = d \<rparr>]"
  "defs (snd (prepare_instance env d w)) =
     (defs w)[d := (defs w ! d)\<lparr> Config := Some (Suc (length (cfgs w))) \<rparr>]"
  "fs_dirs (snd (prepare_instance env d w)) = fs_dirs w"
  "emitted (snd (prepare_instance env d w)) = emitted w"
  "take (length (cfgs w)) (cfgs (snd (prepare_instance env d w))) = cfgs w"
  "length (cfgs (snd (prepare_instance env d w))) = length (cfgs w) + 2"
  by (simp_all add: prepare_instance_def merge_config_eq assign_data_directory_def
      new_TorProcess_def alloc_proc_def Let_def instances_def)

lemma prepare_instance_array:
  "priv_instances (pool (snd (prepare_instance env d w))) =
     (priv_instances (pool w))\<lparr> weighted_list := None \<rparr>"
  by (simp add: prepare_instance_def merge_config_eq assign_data_directory_def
      new_TorProcess_def alloc_proc_def Let_def invalidate_weighted_list_def set_instances_def)

lemma prepare_instance_cfg:
  assumes "case Config (defs w ! d) of None \<Rightarrow> True | Some a \<Rightarrow> a < length (cfgs w)"
  shows "cfgs (snd (prepare_instance env d w)) ! Suc (length (cfgs w)) =
     (let m = lodash_extend (default_content w) (override_content w d);
          current = get_prop m ''DataDirectory''
      in set_prop m ''DataDirectory''
           (if truthy current then current
            else JStr (path_join env (data_directory (pool w))
                         (name_or_id (Name (defs w ! d)) (nanoid_result env)))))"
  using assms
  by (cases "Config (defs w ! d)")
    (simp_all add: prepare_instance_def merge_config_eq assign_data_directory_def
      new_TorProcess_def alloc_proc_def Let_def override_content_def nth_append
      Name_after_Config_update)

lemma ensure_data_directory_same:
  assumes "ensure_data_directory env w = Inr w1"
  shows "instances w1 = instances w" "default_content w1 = default_content w"
    "override_content w1 d = override_content w d"
  using ensure_data_directory_fields[OF assms]
  by (simp_all add: instances_def default_content_def override_content_def
      cong: option.case_cong default_config.case_cong)

lemma passes_checks_obtain:
  assumes "passes_checks env d w"
  obtains w1 where "ensure_data_directory env w = Inr w1"
    and "\<not> name_exists w1 (Name (defs w1 ! d))"
  using assms by (auto simp: passes_checks_def split: sum.splits)

lemma create_instance_after_checks:
  assumes "ensure_data_directory env w = Inr w1" and "\<not> name_exists w1 (Name (defs w1 ! d))"
  shows "create_instance env d w =
     (case create_error env of
        Some e \<Rightarrow> (Rejected e, snd (prepare_instance env d w1))
      | None \<Rightarrow>
          (let w6 = push_instance (fst (prepare_instance env d w1)) (snd (prepare_instance env d w1))
           in case signalled env of
                ErrorSignal e \<Rightarrow> (Rejected e, w6)
              | Ready \<Rightarrow>
                  (Resolved (fst (prepare_instance env d w1)),
                   w6\<lparr> emitted := emitted w6 @ [fst (prepare_instance env d w1)] \<rparr>)
              | NoSignal \<Rightarrow> (Pending, w6)))"
  using assms by (simp add: create_instance_def split_beta Let_def)

lemma create_instance_create_rejects:
  assumes "passes_checks env d w" and "create_error env = Some e"
  shows "fst (create_instance env d w) = Rejected e \<and>
         instances (snd (create_instance env d w)) = instances w"
proof -
  obtain w1 where w1: "ensure_data_directory env w = Inr w1"
    and fresh: "\<not> name_exists w1 (Name (defs w1 ! d))"
    using assms(1) by (rule passes_checks_obtain)
  show ?thesis
    using assms(2)
    by (simp add: create_instance_after_checks[OF w1 fresh] prepare_instance_frame
        ensure_data_directory_same[OF w1])
qed

lemma create_instance_world_cases:
  assumes "ensure_data_directory env w = Inr w1" and "\<not> name_exists w1 (Name (defs w1 ! d))"
  shows "defs (snd (create_instance env d w)) = defs (snd (prepare_instance env d w1))"
    "cfgs (snd (create_instance env d w)) = cfgs (snd (prepare_instance env d w1))"
    "priv_default_tor_config (pool (snd (create_instance env d w))) =
       priv_default_tor_config (pool w1)"
  by (simp_all add: create_instance_after_checks[OF assms] Let_def prepare_instance_frame
      split: option.splits startup_signal.splits)

lemma instance_names_cong:
  assumes "pool w1 = pool w" "procs w1 = procs w" "defs w1 = defs w"
  shows "instance_names w1 = instance_names w"
  using assms by (simp add: instance_names_def instance_name_def definition_of_def instances_def)



lemma unknown_name_is_reference_error:
  assumes "Some name \<notin> set (instance_names w)"
  shows "remove_by_name ex name w = (Rejected (ReferenceError ''name is not defined''), w)"
proof -
  have "filter (\<lambda>i. instance_name w i = Some name) (elems (priv_instances (pool w))) = []"
    using assms by (force simp: instance_names_def instances_def filter_empty_conv)
  then show ?thesis by (simp add: remove_by_name_def instance_by_name_def)
qed

subsection \<open>Rotation and splicing\<close>

lemma to_uint32_small: "to_uint32 0 = 0" "to_uint32 3 = 3"
  by (simp_all add: to_uint32_def)

lemma to_int32_one: "to_int32 1 = 1"
  by (simp add: to_int32_def)

lemma js_rem_one_three: "js_rem (js_rem 1 3 + 3) 3 = 1"
  by (simp add: js_rem_def)

lemma array_splice_first: "array_splice [a, b, c] 0 1 = ([a], [b, c])"
  by (simp add: array_splice_def)

lemma array_splice_nothing: "array_splice [] 0 0 = ([], [])"
  by (simp add: array_splice_def)

lemma array_rotate_three: "array_rotate [a, b, c] 1 = [b, c, a]"
  by (simp add: array_rotate_def to_uint32_small to_int32_one js_rem_one_three array_splice_first)

lemma array_rotate_empty: "array_rotate [] n = []"
  by (simp add: array_rotate_def to_uint32_small array_splice_nothing)

lemma next_round_robin:
  assumes "load_balance_method (pool w) = ''round_robin''"
  shows "next_instance lib rnd w =
    (Inr (array_index (array_rotate (instances w) 1) 0),
     set_instances ((priv_instances (pool w))\<lparr> elems := array_rotate (instances w) 1 \<rparr>) w)"
  using assms
  by (simp add: next_instance_def load_balance_methods_def round_robin_def Let_def instances_def)

lemma array_splice_mset:
  "mset (fst (array_splice xs s d)) + mset (snd (array_splice xs s d)) = mset xs"
proof -
  define a where "a = (if s < 0 then max (int (length xs) + s) 0 else min s (int (length xs)))"
  define k where "k = min (max d 0) (int (length xs) - a)"
  have a0: "0 \<le> a" and al: "a \<le> int (length xs)" by (auto simp: a_def)
  then have k0: "0 \<le> k" by (auto simp: k_def)
  have split: "nat (a + k) = nat a + nat k" using a0 k0 by (simp add: nat_add_distrib)
  have "mset (take (nat k) (drop (nat a) xs)) + mset (drop (nat k) (drop (nat a) xs))
      = mset (drop (nat a) xs)"
    by (metis append_take_drop_id mset_append)
  moreover have "mset (take (nat a) xs) + mset (drop (nat a) xs) = mset xs"
    by (metis append_take_drop_id mset_append)
  ultimately have "mset (take (nat k) (drop (nat a) xs)) +
      (mset (take (nat a) xs) + mset (drop (nat a + nat k) xs)) = mset xs"
    by (simp add: add.commute add.left_commute)
  then show ?thesis
    by (simp add: array_splice_def Let_def a_def[symmetric] k_def[symmetric] split)
qed

lemma array_rotate_mset: "mset (array_rotate xs n) = mset xs"
proof -
  obtain c where "array_rotate xs n = snd (array_splice xs 0 c) @ fst (array_splice xs 0 c)"
    by (simp add: array_rotate_def Let_def split_beta)
  then show ?thesis
    using array_splice_mset[of xs 0 c] by (simp add: add.commute)
qed

subsection \<open>Labels\<close>

lemma set_lodash_uniq [simp]: "set (lodash_uniq xs) = set xs"
  by (induction xs rule: lodash_uniq.induct) auto

lemma count_lodash_uniq: "count_list (lodash_uniq xs) x = (if x \<in> set xs then 1 else 0)"
  by (induction xs rule: lodash_uniq.induct) auto

lemma lodash_uniq_snoc_member:
  "x \<in> set xs \<Longrightarrow> lodash_uniq (xs @ [x]) = lodash_uniq xs"
  by (induction xs rule: lodash_uniq.induct) auto

lemma lodash_uniq_idem: "lodash_uniq (lodash_uniq xs) = lodash_uniq xs"
proof (induction xs rule: lodash_uniq.induct)
  case 1
  show ?case by simp
next
  case (2 x xs)
  have "filter (\<lambda>y. y \<noteq> x) (lodash_uniq (filter (\<lambda>y. y \<noteq> x) xs)) =
      lodash_uniq (filter (\<lambda>y. y \<noteq> x) xs)"
    by (simp add: filter_id_conv)
  with 2 show ?case by simp
qed

lemma lodash_union_twice:
  "lodash_union (lodash_union xs [x]) [x] = lodash_union xs [x]"
  by (simp add: lodash_union_def lodash_uniq_snoc_member lodash_uniq_idem)

lemma group_names_set:
  "set (group_names w) = (\<Union>i \<in> set (instances w). set (instance_group w i))"
  by (simp add: group_names_def)

lemma instance_group_set_group:
  assumes "proc_definition (procs w ! i) < length (defs w)"
  shows "instance_group (set_group i g w) i = (case g of None \<Rightarrow> [] | Some x \<Rightarrow> x)"
  using assms by (simp add: instance_group_def definition_of_def set_group_def Let_def)

lemma set_group_fields [simp]:
  "procs (set_group i g w) = procs w"
  "length (defs (set_group i g w)) = length (defs w)"
  by (simp_all add: set_group_def Let_def)

lemma set_group_same:
  "set_group i (Group (definition_of w i)) w = w"
  by (simp add: set_group_def definition_of_def Let_def)

subsection \<open>The weighted list\<close>

lemma weighted_list_ok_None:
  "weighted_list (priv_instances (pool w)) = None \<Longrightarrow> weighted_list_ok w"
  by (simp add: weighted_list_ok_def)

lemma new_TorPool_ok:
  "new_TorPool torpath default_cfg data_dir method = Inr p \<Longrightarrow> weighted_list_ok (initial_world p)"
  by (auto simp: new_TorPool_def weighted_list_ok_def initial_world_def split: if_splits)

lemma weighted_list_ok_cong:
  "pool w' = pool w \<Longrightarrow> weighted_list_ok w \<Longrightarrow> weighted_list_ok w'"
  by (simp add: weighted_list_ok_def split: option.splits)

lemma entry_data_weighted_entries: "map entry_data (weighted_entries w xs) = xs"
  by (simp add: weighted_entries_def entry_data_def comp_def)

lemma create_instance_cache:
  "pool (snd (create_instance env d w)) = pool w \<or>
   weighted_list (priv_instances (pool (snd (create_instance env d w)))) = None"
proof (cases "ensure_data_directory env w")
  case (Inl e)
  then show ?thesis by (simp add: create_instance_def)
next
  case (Inr w1)
  note same = ensure_data_directory_fields[OF Inr]
  show ?thesis
  proof (cases "name_exists w1 (Name (defs w1 ! d))")
    case True
    then show ?thesis by (simp add: create_instance_def Inr same)
  next
    case False
    show ?thesis
      by (simp add: create_instance_after_checks[OF Inr False] Let_def prepare_instance_frame
          split: option.splits startup_signal.splits)
  qed
qed

lemma pool_remove_cache:
  "weighted_list (priv_instances (pool (snd (pool_remove ex n w)))) = None"
  by (simp add: pool_remove_def Let_def split_beta)

lemma remove_at_cache:
  "weighted_list (priv_instances (pool (snd (remove_at ex n w)))) = None"
  by (simp add: remove_at_def Let_def split_beta split: list.splits)

lemma remove_by_name_cache:
  "snd (remove_by_name ex name w) = w \<or>
   weighted_list (priv_instances (pool (snd (remove_by_name ex name w)))) = None"
  by (simp add: remove_by_name_def remove_at_cache split: option.splits)

lemma pool_exit_cache:
  "snd (pool_exit ex w) = w \<or>
   weighted_list (priv_instances (pool (snd (pool_exit ex w)))) = None"
  by (simp add: pool_exit_def split: option.splits)

lemma next_instance_ok:
  assumes "peek_permutes lib" and "weighted_list_ok w"
  shows "weighted_list_ok (snd (next_instance lib rnd w))"
proof -
  consider (rr) "load_balance_method (pool w) = ''round_robin''"
    | (wt) "load_balance_method (pool w) \<noteq> ''round_robin''" "load_balance_method (pool w) = ''weighted''"
    | (other) "load_balance_method (pool w) \<noteq> ''round_robin''" "load_balance_method (pool w) \<noteq> ''weighted''"
    by blast
  then show ?thesis
  proof cases
    case rr
    then show ?thesis
      using assms(2)
      by (simp add: next_instance_def load_balance_methods_def round_robin_def Let_def
          weighted_list_ok_def array_rotate_mset split: option.splits)
  next
    case other
    then show ?thesis
      using assms(2) by (simp add: next_instance_def load_balance_methods_def)
  next
    case wt
    show ?thesis
    proof (cases "weighted_list (priv_instances (pool w))")
      case (Some wl)
      then have "mset (map entry_data wl) = mset (elems (priv_instances (pool w)))"
        using assms(2) by (simp add: weighted_list_ok_def)
      then have "length (map entry_data wl) = length (elems (priv_instances (pool w)))"
        by (rule mset_eq_length)
      then have len: "length (elems (priv_instances (pool w))) = length wl" by simp
      show ?thesis
      proof (cases "wl_peek lib rnd wl (length wl)")
        case (Inl e)
        then show ?thesis
          using assms(2) wt Some len
          by (simp add: next_instance_def load_balance_methods_def weighted_def weighted_list_ok_def)
      next
        case (Inr picked)
        then have "mset picked = mset wl" using assms(1) by (simp add: peek_permutes_def)
        then have "mset (map entry_data picked) = mset (map entry_data wl)" by simp
        then show ?thesis
          using wt Some len Inr
          by (simp add: next_instance_def load_balance_methods_def weighted_def weighted_list_ok_def)
      qed
    next
      case None
      let ?es = "weighted_entries w (elems (priv_instances (pool w)))"
      have len: "length (elems (priv_instances (pool w))) = length ?es"
        by (simp add: weighted_entries_def)
      show ?thesis
      proof (cases "wl_new_error lib ?es")
        case (Some e)
        then show ?thesis
          using assms(2) wt None
          by (simp add: next_instance_def load_balance_methods_def weighted_def weighted_list_ok_def)
      next
        case nerr: None
        show ?thesis
        proof (cases "wl_peek lib rnd ?es (length ?es)")
          case (Inl e)
          then show ?thesis
            using wt None nerr len
            by (simp add: next_instance_def load_balance_methods_def weighted_def
                weighted_list_ok_def Let_def entry_data_weighted_entries)
        next
          case (Inr picked)
          then have "mset picked = mset ?es" using assms(1) by (simp add: peek_permutes_def)
          then have "mset (map entry_data picked) = mset (map entry_data ?es)" by simp
          then show ?thesis
            using wt None nerr len Inr
            by (simp add: next_instance_def load_balance_methods_def weighted_def
                weighted_list_ok_def Let_def)
        qed
      qed
    qed
  qed
qed

lemma group_ops_pool:
  "pool (keep_on_error w (add_instance_to_group grp inst w)) = pool w"
  "pool (keep_on_error w (remove_instance_from_group grp inst w)) = pool w"
  by (simp_all add: add_instance_to_group_def remove_instance_from_group_def set_group_def
      Let_def split: option.splits)

lemma next_not_weighted_cache:
  assumes "load_balance_method (pool w) \<noteq> ''weighted''"
  shows "weighted_list (priv_instances (pool (snd (next_instance lib rnd w)))) =
         weighted_list (priv_instances (pool w))"
  using assms
  by (simp add: next_instance_def load_balance_methods_def round_robin_def Let_def)

subsection \<open>Suspended calls\<close>

lemma create_instance_in_parts:
  "create_instance env d w =
     (outcome_so_far (fst (create_resumes 3 env (create_begin env d w))),
      snd (create_resumes 3 env (create_begin env d w)))"
  by (simp add: create_instance_def ensure_data_directory_def create_begin_def
      create_checked_def numeral_3_eq_3 split_beta Let_def
      split: option.splits startup_signal.splits)

lemma pool_exit_in_parts:
  "pool_exit ex w =
     (outcome_so_far (fst (exit_resume ex (AtExit (elems (priv_instances (pool w)))) w)),
      snd (exit_resume ex (AtExit (elems (priv_instances (pool w)))) w))"
  by (simp add: pool_exit_def split: option.splits)

lemma creating_iff: "creating ts = (\<exists>t \<in> set ts. is_at_create t)"
  by (auto simp: creating_def filter_empty_conv)

lemma creating_append: "creating (ts @ [t]) = (creating ts \<or> is_at_create t)"
  by (auto simp: creating_iff)

lemma creating_remove: "creating (take k ts @ drop (Suc k) ts) \<Longrightarrow> creating ts"
  by (auto simp: creating_iff dest: in_set_takeD in_set_dropD)

lemma creating_update: "creating (ts[k := t]) \<Longrightarrow> creating ts \<or> is_at_create t"
  by (auto simp: creating_iff dest: set_update_subset_insert[THEN subsetD])

lemma creating_nth: "k < length ts \<Longrightarrow> is_at_create (ts ! k) \<Longrightarrow> creating ts"
  by (auto simp: creating_iff)

lemma creation_safe_None:
  "weighted_list (priv_instances (pool (the_world s))) = None \<Longrightarrow> creation_safe s"
  by (simp add: creation_safe_def weighted_list_ok_def)

lemma creation_safe_keep:
  assumes "creation_safe s" and "pool (the_world s') = pool (the_world s)"
    and "creating (tasks s') \<Longrightarrow> creating (tasks s)"
  shows "creation_safe s'"
  using assms
  by (auto simp: creation_safe_def weighted_list_ok_def split: if_splits option.splits)

lemma creation_safe_creating:
  "creation_safe s \<Longrightarrow> creating (tasks s) \<Longrightarrow>
   weighted_list (priv_instances (pool (the_world s))) = None"
  by (simp add: creation_safe_def)

lemma creation_safe_ok: "creation_safe s \<Longrightarrow> weighted_list_ok (the_world s)"
  by (auto simp: creation_safe_def weighted_list_ok_def split: if_splits)

lemma initial_system_safe:
  "new_TorPool torpath default_cfg data_dir method = Inr p \<Longrightarrow>
   creation_safe \<lparr> the_world = initial_world p, tasks = [] \<rparr>"
  by (simp add: creation_safe_def creating_def new_TorPool_ok)

lemma create_checked_cases:
  "create_checked env d w = (Done (Rejected (Error (already_exists_message (Name (defs w ! d))))), w) \<or>
   (fst (create_checked env d w) = Suspended (AtCreate (length (procs w))) \<and>
    weighted_list (priv_instances (pool (snd (create_checked env d w)))) = None \<and>
    instances (snd (create_checked env d w)) = instances w)"
  by (simp add: create_checked_def split_beta prepare_instance_frame)

lemma begun_fields:
  "the_world (begun s pw) = snd pw"
  "tasks (begun s pw) = (case fst pw of Done r \<Rightarrow> tasks s | Suspended t \<Rightarrow> tasks s @ [t])"
  by (simp_all add: begun_def split: progress.splits)

lemma resumed_fields:
  "the_world (resumed k s pw) = snd pw"
  "tasks (resumed k s pw) =
     (case fst pw of Done r \<Rightarrow> take k (tasks s) @ drop (Suc k) (tasks s)
      | Suspended t \<Rightarrow> (tasks s)[k := t])"
  by (simp_all add: resumed_def split: progress.splits)

lemma creating_resumed:
  assumes "creating (tasks (resumed k s pw))" and "k < length (tasks s)"
    and "\<And>t. fst pw = Suspended t \<Longrightarrow> is_at_create t \<Longrightarrow> creating (tasks s)"
  shows "creating (tasks s)"
proof (cases "fst pw")
  case (Done r)
  then show ?thesis using assms(1) by (auto simp: resumed_fields dest: creating_remove)
next
  case (Suspended t)
  then show ?thesis
    using assms(1,3) by (auto simp: resumed_fields dest: creating_update)
qed

lemma begin_safe:
  assumes "creation_safe s"
  shows "creation_safe (begun s (create_begin env d (the_world s)))"
proof (cases "data_directory (pool (the_world s)) \<in> set (fs_dirs (the_world s))")
  case False
  then show ?thesis
    using assms
    by (intro creation_safe_keep[OF assms])
      (simp_all add: create_begin_def begun_fields creating_append)
next
  case True
  from create_checked_cases[of env d "the_world s"] show ?thesis
  proof
    assume "create_checked env d (the_world s) =
      (Done (Rejected (Error (already_exists_message (Name (defs (the_world s) ! d))))), the_world s)"
    then show ?thesis
      using True by (intro creation_safe_keep[OF assms]) (simp_all add: create_begin_def begun_fields)
  next
    assume "fst (create_checked env d (the_world s)) = Suspended (AtCreate (length (procs (the_world s)))) \<and>
      weighted_list (priv_instances (pool (snd (create_checked env d (the_world s))))) = None \<and>
      instances (snd (create_checked env d (the_world s))) = instances (the_world s)"
    then show ?thesis
      using True by (intro creation_safe_None) (simp add: create_begin_def begun_fields)
  qed
qed

lemma create_resume_safe:
  assumes "creation_safe s" and "k < length (tasks s)"
  shows "creation_safe (resumed k s (create_resume env (tasks s ! k) (the_world s)))"
proof (cases "tasks s ! k")
  case (AtMkdir d)
  show ?thesis
  proof (cases "mkdir_error env")
    case (Some e)
    then show ?thesis
      using AtMkdir assms(2)
      by (intro creation_safe_keep[OF assms(1)])
        (auto simp: resumed_fields dest: creating_remove)
  next
    case None
    let ?w = "(the_world s)\<lparr> fs_dirs := data_directory (pool (the_world s)) # fs_dirs (the_world s) \<rparr>"
    from create_checked_cases[of env d ?w] show ?thesis
    proof
      assume "create_checked env d ?w =
        (Done (Rejected (Error (already_exists_message (Name (defs ?w ! d))))), ?w)"
      then show ?thesis
        using AtMkdir None
        by (intro creation_safe_keep[OF assms(1)])
          (auto simp: resumed_fields dest: creating_remove)
    next
      assume "fst (create_checked env d ?w) = Suspended (AtCreate (length (procs ?w))) \<and>
        weighted_list (priv_instances (pool (snd (create_checked env d ?w)))) = None \<and>
        instances (snd (create_checked env d ?w)) = instances ?w"
      then show ?thesis
        using AtMkdir None by (intro creation_safe_None) (simp add: resumed_fields)
    qed
  qed
next
  case (AtCreate i)
  then have "creating (tasks s)" using assms(2) by (auto intro: creating_nth)
  then have none: "weighted_list (priv_instances (pool (the_world s))) = None"
    using assms(1) by (rule creation_safe_creating[rotated])
  show ?thesis
    using AtCreate none
    by (intro creation_safe_None) (simp add: resumed_fields split: option.splits)
next
  case (AtSignal i)
  show ?thesis
  proof (rule creation_safe_keep[OF assms(1)])
    show "pool (the_world (resumed k s (create_resume env (tasks s ! k) (the_world s)))) =
        pool (the_world s)"
      using AtSignal by (simp add: resumed_fields split: startup_signal.splits)
    show "creating (tasks s)"
      if "creating (tasks (resumed k s (create_resume env (tasks s ! k) (the_world s))))"
      using that assms(2)
    proof (rule creating_resumed)
      fix t
      assume a: "fst (create_resume env (tasks s ! k) (the_world s)) = Suspended t"
        and b: "is_at_create t"
      from a have "t = AtSignal i"
        unfolding AtSignal by (simp split: startup_signal.splits)
      with b show "creating (tasks s)" by simp
    qed
  qed
next
  case (AtExit xs)
  show ?thesis
  proof (rule creation_safe_keep[OF assms(1)])
    show "pool (the_world (resumed k s (create_resume env (tasks s ! k) (the_world s)))) =
        pool (the_world s)"
      using AtExit by (simp add: resumed_fields)
    show "creating (tasks s)"
      if "creating (tasks (resumed k s (create_resume env (tasks s ! k) (the_world s))))"
      using that assms(2)
    proof (rule creating_resumed)
      fix t
      assume a: "fst (create_resume env (tasks s ! k) (the_world s)) = Suspended t"
        and b: "is_at_create t"
      from a have "t = AtExit xs"
        unfolding AtExit by simp
      with b show "creating (tasks s)" by simp
    qed
  qed
qed

lemma exit_resume_safe:
  assumes "creation_safe s" and "k < length (tasks s)"
  shows "creation_safe (resumed k s (exit_resume ex (tasks s ! k) (the_world s)))"
proof (cases "\<exists>xs. tasks s ! k = AtExit xs \<and> promise_all_exit ex xs = None")
  case True
  then show ?thesis
    by (intro creation_safe_None) (auto simp: resumed_fields)
next
  case False
  show ?thesis
  proof (rule creation_safe_keep[OF assms(1)])
    show "pool (the_world (resumed k s (exit_resume ex (tasks s ! k) (the_world s)))) =
        pool (the_world s)"
      using False by (cases "tasks s ! k") (auto simp: resumed_fields split: option.splits)
    show "creating (tasks s)"
      if "creating (tasks (resumed k s (exit_resume ex (tasks s ! k) (the_world s))))"
      using that assms(2)
    proof (rule creating_resumed)
      fix t
      assume "fst (exit_resume ex (tasks s ! k) (the_world s)) = Suspended t" and "is_at_create t"
      then have "is_at_create (tasks s ! k)"
        by (cases "tasks s ! k") (auto split: option.splits)
      then show "creating (tasks s)" using assms(2) by (rule creating_nth[rotated])
    qed
  qed
qed

lemma step_safe:
  assumes "peek_permutes lib" and "creation_safe s"
    and "\<not> (is_weighted_selection op s \<and> creating (tasks s))"
  shows "creation_safe (step lib op s)"
proof (cases op)
  case (CreateInstance env d)
  then show ?thesis using begin_safe[OF assms(2)] by simp
next
  case (Resume env k)
  then show ?thesis using create_resume_safe[OF assms(2)] assms(2) by simp
next
  case (Remove ex n)
  then show ?thesis by (auto intro: creation_safe_None simp: pool_remove_cache)
next
  case (RemoveAt ex n)
  then show ?thesis by (auto intro: creation_safe_None simp: remove_at_cache)
next
  case (RemoveByName ex name)
  from remove_by_name_cache[of ex name "the_world s"] show ?thesis
  proof
    assume "snd (remove_by_name ex name (the_world s)) = the_world s"
    then show ?thesis
      using RemoveByName by (intro creation_safe_keep[OF assms(2)]) simp_all
  next
    assume "weighted_list (priv_instances (pool (snd (remove_by_name ex name (the_world s))))) = None"
    then show ?thesis
      using RemoveByName by (intro creation_safe_None) simp
  qed
next
  case Exit
  then show ?thesis
    by (intro creation_safe_keep[OF assms(2)])
      (simp_all add: begun_fields exit_begin_def creating_append)
next
  case (ResumeExit ex k)
  then show ?thesis using exit_resume_safe[OF assms(2)] assms(2) by simp
next
  case (Next rnd)
  show ?thesis
  proof (cases "creating (tasks s)")
    case True
    then have "load_balance_method (pool (the_world s)) \<noteq> ''weighted''"
      using assms(3) Next by simp
    then have "weighted_list (priv_instances (pool (snd (next_instance lib rnd (the_world s))))) =
        weighted_list (priv_instances (pool (the_world s)))"
      by (rule next_not_weighted_cache)
    then show ?thesis
      using Next creation_safe_creating[OF assms(2) True]
      by (intro creation_safe_None) simp
  next
    case False
    then have "weighted_list_ok (the_world s)"
      using assms(2) by (simp add: creation_safe_def)
    then have "weighted_list_ok (snd (next_instance lib rnd (the_world s)))"
      by (rule next_instance_ok[OF assms(1)])
    then show ?thesis
      using Next False by (simp add: creation_safe_def)
  qed
next
  case (AddToGroup grp inst)
  then show ?thesis
    by (intro creation_safe_keep[OF assms(2)]) (simp_all add: group_ops_pool)
next
  case (RemoveFromGroup grp inst)
  then show ?thesis
    by (intro creation_safe_keep[OF assms(2)]) (simp_all add: group_ops_pool)
qed

lemma run_safe:
  assumes "peek_permutes lib"
  shows "creation_safe s \<Longrightarrow> selection_apart lib ops s \<Longrightarrow> creation_safe (run lib ops s)"
  unfolding run_def
proof (induction ops arbitrary: s)
  case Nil
  then show ?case by simp
next
  case (Cons op ops)
  then have "creation_safe (step lib op s)"
    using step_safe[OF assms, of s op] by simp
  then show ?case using Cons by simp
qed

lemma one_at_a_time_apart: "one_at_a_time lib ops s \<Longrightarrow> selection_apart lib ops s"
proof (induction ops arbitrary: s)
  case Nil
  then show ?case by simp
next
  case (Cons op ops)
  have "\<not> (is_weighted_selection op s \<and> creating (tasks s))"
    using Cons.prems by (cases op) (auto simp: creating_def)
  then show ?case using Cons by simp
qed

lemma membership_step_invalidates:
  assumes "creation_safe s" and "is_membership_op op"
    and "instances (the_world (step lib op s)) \<noteq> instances (the_world s)"
  shows "weighted_list (priv_instances (pool (the_world (step lib op s)))) = None"
proof (cases op)
  case (CreateInstance env d)
  show ?thesis
  proof (cases "data_directory (pool (the_world s)) \<in> set (fs_dirs (the_world s))")
    case False
    then show ?thesis
      using assms(3) CreateInstance by (simp add: create_begin_def begun_fields)
  next
    case True
    then show ?thesis
      using assms(3) CreateInstance create_checked_cases[of env d "the_world s"]
      by (auto simp: create_begin_def begun_fields)
  qed
next
  case (Resume env k)
  then have k: "k < length (tasks s)" using assms(3) by (auto split: if_splits)
  show ?thesis
  proof (cases "tasks s ! k")
    case (AtMkdir d)
    let ?w = "(the_world s)\<lparr> fs_dirs := data_directory (pool (the_world s)) # fs_dirs (the_world s) \<rparr>"
    have "instances ?w = instances (the_world s)" by (simp add: instances_def)
    then show ?thesis
      using assms(3) Resume k AtMkdir create_checked_cases[of env d ?w]
      by (auto simp: resumed_fields split: option.splits)
  next
    case (AtCreate i)
    then have "creating (tasks s)" using k by (auto intro: creating_nth)
    then have "weighted_list (priv_instances (pool (the_world s))) = None"
      using assms(1) by (rule creation_safe_creating[rotated])
    then show ?thesis
      using Resume k AtCreate by (simp add: resumed_fields split: option.splits)
  next
    case (AtSignal i)
    then show ?thesis
      using assms(3) Resume k
      by (simp add: resumed_fields instances_emitted split: startup_signal.splits)
  next
    case (AtExit xs)
    then show ?thesis
      using assms(3) Resume k by (simp add: resumed_fields)
  qed
next
  case (Remove ex n)
  then show ?thesis by (simp add: pool_remove_cache)
next
  case (RemoveAt ex n)
  then show ?thesis by (simp add: remove_at_cache)
next
  case (RemoveByName ex name)
  then show ?thesis
    using remove_by_name_cache[of ex name "the_world s"] assms(3) by auto
next
  case Exit
  then show ?thesis using assms(3) by (simp add: begun_fields exit_begin_def)
next
  case (ResumeExit ex k)
  then have k: "k < length (tasks s)" using assms(3) by (auto split: if_splits)
  show ?thesis
    using assms(3) ResumeExit k
    by (cases "tasks s ! k") (auto simp: resumed_fields split: option.splits)
qed (use assms(2) in simp_all)

subsection \<open>The concrete pool\<close>

lemma example_world_fields:
  "instances example_world = [0, 1, 2]"
  "length (procs example_world) = 3"
  "length (cfgs example_world) = 5"
  "length (defs example_world) = 6"
  "data_directory (pool example_world) = ''/t''"
  "fs_dirs example_world = [''/t'']"
  "instance_names example_world = [Some ''A'', Some ''B'', Some ''C'']"
  "priv_default_tor_config (pool example_world) = ConfigObject 0"
  by (simp_all add: example_world_def instances_def instance_names_def instance_name_def
      definition_of_def)

lemma example_ensure:
  "ensure_data_directory env example_world = Inr example_world"
  by (simp add: ensure_data_directory_def example_world_fields)

lemma example_passes_D: "passes_checks env 3 example_world"
  by (simp add: passes_checks_def example_ensure name_exists_def example_world_fields)
    (simp add: example_world_def)

lemma example_valid_D: "valid_refs example_world 3"
  by (simp add: valid_refs_def example_world_fields) (simp add: example_world_def)

lemma example_method: "load_balance_method (pool example_world) = ''round_robin''"
  by (simp add: example_world_def)

lemma example_blank_fields:
  "instances example_world_blank = [0, 1, 2]"
  "length (procs example_world_blank) = 3"
  "instance_names example_world_blank = [Some ''A'', Some ''B'', Some []]"
  "Name (defs example_world_blank ! 5) = Some []"
  "ensure_data_directory env example_world_blank = Inr example_world_blank"
  by (simp_all add: example_world_blank_def example_world_def instances_def instance_names_def
      instance_name_def definition_of_def ensure_data_directory_def)

lemma example_lib_permutes: "peek_permutes example_lib"
  by (auto simp: peek_permutes_def example_lib_def)

lemma example_lib_fields:
  "wl_new_error example_lib entries = None"
  "wl_peek example_lib rnd wl n =
     (if length wl < n then Inl (Thrown ''Stack underflow'') else Inr (rev (take n wl)))"
  by (simp_all add: example_lib_def)

lemma example_env_fields:
  "mkdir_error example_env = None" "nanoid_result example_env = ''d4''"
  "create_error example_env = None" "signalled example_env = Ready"
  by (simp_all add: example_env_def)

lemma example_weighted_fields:
  "priv_instances (pool example_world_weighted) = \<lparr> elems = [0, 1, 2], weighted_list = None \<rparr>"
  "load_balance_method (pool example_world_weighted) = ''weighted''"
  "data_directory (pool example_world_weighted) = ''/t''"
  "fs_dirs example_world_weighted = [''/t'']"
  "procs example_world_weighted = procs example_world"
  "defs example_world_weighted = defs example_world"
  "instance_names example_world_weighted = [Some ''A'', Some ''B'', Some ''C'']"
  by (simp_all add: example_world_weighted_def example_world_def instance_names_def
      instance_name_def definition_of_def instances_def)

lemma example_prepared:
  "create_begin example_env 3 example_world_weighted =
     (Suspended (AtCreate 3), snd (prepare_instance example_env 3 example_world_weighted))"
proof -
  have "\<not> name_exists example_world_weighted (Name (defs example_world_weighted ! 3))"
    by (simp add: name_exists_def example_weighted_fields) (simp add: example_world_def)
  moreover have "fst (prepare_instance example_env 3 example_world_weighted) = 3"
    by (simp add: prepare_instance_frame example_weighted_fields example_world_fields)
  ultimately show ?thesis
    by (simp add: create_begin_def create_checked_def example_weighted_fields split_beta)
qed

lemma example_prepared_fields:
  "priv_instances (pool (snd (prepare_instance example_env 3 example_world_weighted))) =
     \<lparr> elems = [0, 1, 2], weighted_list = None \<rparr>"
  "load_balance_method (pool (snd (prepare_instance example_env 3 example_world_weighted))) =
     ''weighted''"
  "weighted_entries (snd (prepare_instance example_env 3 example_world_weighted)) [0, 1, 2] =
     [(Some ''a1'', JNum 1, 0), (Some ''b2'', JNum 100, 1), (Some ''c3'', JNum 1, 2)]"
  "weighted_entries (snd (prepare_instance example_env 3 example_world_weighted)) [0, 1, 2, 3] =
     [(Some ''a1'', JNum 1, 0), (Some ''b2'', JNum 100, 1), (Some ''c3'', JNum 1, 2),
      (Some ''d4'', JUndefined, 3)]"
proof -
  show "priv_instances (pool (snd (prepare_instance example_env 3 example_world_weighted))) =
     \<lparr> elems = [0, 1, 2], weighted_list = None \<rparr>"
    by (simp add: prepare_instance_array example_weighted_fields)
  show "load_balance_method (pool (snd (prepare_instance example_env 3 example_world_weighted))) =
     ''weighted''"
    by (simp add: prepare_instance_frame example_weighted_fields)
  have p: "procs (snd (prepare_instance example_env 3 example_world_weighted)) =
      [\<lparr> proc_id = Some ''a1'', proc_definition = 0 \<rparr>,
       \<lparr> proc_id = Some ''b2'', proc_definition = 1 \<rparr>,
       \<lparr> proc_id = Some ''c3'', proc_definition = 2 \<rparr>,
       \<lparr> proc_id = Some ''d4'', proc_definition = 3 \<rparr>]"
    by (simp add: prepare_instance_frame example_weighted_fields example_world_def example_env_fields)
  have d: "map Weight (defs (snd (prepare_instance example_env 3 example_world_weighted))) =
      [JNum 1, JNum 100, JNum 1, JUndefined, JUndefined, JUndefined]"
    by (simp add: prepare_instance_frame example_weighted_fields example_world_def)
  have w: "Weight (defs (snd (prepare_instance example_env 3 example_world_weighted)) ! k) =
      [JNum 1, JNum 100, JNum 1, JUndefined, JUndefined, JUndefined] ! k" if "k < 6" for k
  proof -
    have "length (defs (snd (prepare_instance example_env 3 example_world_weighted))) = 6"
      using arg_cong[OF d, of length] by simp
    with that show ?thesis using nth_map[of k _ Weight] d by metis
  qed
  show "weighted_entries (snd (prepare_instance example_env 3 example_world_weighted)) [0, 1, 2] =
     [(Some ''a1'', JNum 1, 0), (Some ''b2'', JNum 100, 1), (Some ''c3'', JNum 1, 2)]"
    by (simp add: weighted_entries_def definition_of_def p w)
  show "weighted_entries (snd (prepare_instance example_env 3 example_world_weighted)) [0, 1, 2, 3] =
     [(Some ''a1'', JNum 1, 0), (Some ''b2'', JNum 100, 1), (Some ''c3'', JNum 1, 2),
      (Some ''d4'', JUndefined, 3)]"
    by (simp add: weighted_entries_def definition_of_def p w)
qed


lemmas example_prepared_values = example_prepared_fields[unfolded One_nat_def]

lemma example_step_create:
  "step example_lib (CreateInstance example_env 3) example_system =
     \<lparr> the_world = snd (prepare_instance example_env 3 example_world_weighted),
       tasks = [AtCreate 3] \<rparr>"
  by (simp add: example_system_def example_prepared begun_def)

lemma example_next_in_window:
  "next_instance example_lib 7 (snd (prepare_instance example_env 3 example_world_weighted)) =
     (Inr (Some 2),
      set_instances
        \<lparr> elems = [2, 1, 0],
          weighted_list = Some [(Some ''a1'', JNum 1, 0), (Some ''b2'', JNum 100, 1),
                                (Some ''c3'', JNum 1, 2)] \<rparr>
        (snd (prepare_instance example_env 3 example_world_weighted)))"
  by (simp add: next_instance_def load_balance_methods_def weighted_def example_prepared_values
      example_lib_fields entry_data_def array_index_def Let_def)

lemma example_run_interleaved:
  "run example_lib [CreateInstance example_env 3, Next 7, Resume example_env 0] example_system =
     \<lparr> the_world =
         push_instance 3
           (set_instances
              \<lparr> elems = [2, 1, 0],
                weighted_list = Some [(Some ''a1'', JNum 1, 0), (Some ''b2'', JNum 100, 1),
                                      (Some ''c3'', JNum 1, 2)] \<rparr>
              (snd (prepare_instance example_env 3 example_world_weighted))),
       tasks = [AtSignal 3] \<rparr>"
  by (simp del: step.simps
      add: run_def example_step_create example_next_in_window resumed_def example_env_fields
        step.simps(2,8))

lemma example_run_apart:
  "run example_lib [CreateInstance example_env 3, Resume example_env 0] example_system =
     \<lparr> the_world = push_instance 3 (snd (prepare_instance example_env 3 example_world_weighted)),
       tasks = [AtSignal 3] \<rparr>"
  by (simp del: step.simps
      add: run_def example_step_create resumed_def example_env_fields step.simps(2))

lemma example_next_after_push:
  "next_instance example_lib 7
     (push_instance 3 (snd (prepare_instance example_env 3 example_world_weighted))) =
     (Inr (Some 3),
      set_instances
        \<lparr> elems = [3, 2, 1, 0],
          weighted_list = Some [(Some ''a1'', JNum 1, 0), (Some ''b2'', JNum 100, 1),
                                (Some ''c3'', JNum 1, 2), (Some ''d4'', JUndefined, 3)] \<rparr>
        (push_instance 3 (snd (prepare_instance example_env 3 example_world_weighted))))"
proof -
  have e: "weighted_entries (set_instances arr w) = weighted_entries w" for arr w
    by (simp add: weighted_entries_def definition_of_def fun_eq_iff)
  show ?thesis
    by (simp add: next_instance_def load_balance_methods_def weighted_def e
        example_prepared_values push_instance_def example_lib_fields entry_data_def
        array_index_def Let_def)
qed

lemma example_apart:
  "selection_apart example_lib
     [CreateInstance example_env 3, Resume example_env 0, Next 7] example_system"
proof -
  have "step example_lib (Resume example_env 0)
      (step example_lib (CreateInstance example_env 3) example_system) =
      \<lparr> the_world = push_instance 3 (snd (prepare_instance example_env 3 example_world_weighted)),
        tasks = [AtSignal 3] \<rparr>"
    using example_run_apart by (simp del: step.simps add: run_def)
  then show ?thesis
    by (simp del: step.simps add: creating_def)
qed

lemma example_system_safe: "creation_safe example_system"
  by (simp add: creation_safe_def creating_def example_system_def weighted_list_ok_def
      example_weighted_fields)

section \<open>The claims\<close>

text \<open>
  Claim C1, as amended. The claim says that after a creation in which the handle signals
  \<^verbatim>\<open>error\<close> the pool's sequence equals the sequence before the call. The code
  pushes the instance on line 249, when \<^verbatim>\<open>create()\<close> has resolved and before it
  listens for \<^verbatim>\<open>error\<close> and \<^verbatim>\<open>ready\<close>. So: when a call has passed the data
  directory and the name check, \<^verbatim>\<open>create()\<close> resolves and the handle then signals
  \<^verbatim>\<open>error\<close>, \<^verbatim>\<open>create_instance\<close> rejects with the handle's error and the pool's
  sequence is the sequence before the call with the new instance appended.
\<close>

theorem create_instance_error_signal_keeps_instance:
  assumes "passes_checks env d w" and "create_error env = None"
    and "signalled env = ErrorSignal e"
  shows "fst (create_instance env d w) = Rejected e \<and>
         instances (snd (create_instance env d w)) = instances w @ [length (procs w)]"
proof -
  obtain w1 where w1: "ensure_data_directory env w = Inr w1"
    and fresh: "\<not> name_exists w1 (Name (defs w1 ! d))"
    using assms(1) by (rule passes_checks_obtain)
  show ?thesis
    using assms(2,3)
    by (simp add: create_instance_after_checks[OF w1 fresh] prepare_instance_frame
        ensure_data_directory_same[OF w1] ensure_data_directory_fields[OF w1])
qed

text \<open>The theorem at definition D of the concrete pool, with a handle that signals an error.\<close>

theorem create_instance_error_signal_witness:
  "passes_checks example_env_failing 3 example_world \<and>
   create_error example_env_failing = None \<and>
   signalled example_env_failing = ErrorSignal (Error ''failed'') \<and>
   fst (create_instance example_env_failing 3 example_world) = Rejected (Error ''failed'') \<and>
   instances example_world = [0, 1, 2] \<and>
   instances (snd (create_instance example_env_failing 3 example_world)) = [0, 1, 2, 3]"
  using
    create_instance_error_signal_keeps_instance[of example_env_failing 3 example_world "Error ''failed''"]
  by (simp add: example_passes_D example_env_failing_def example_env_def example_world_fields)

text \<open>Claim C1 as stated fails there: the call rejects and the pool's sequence is not what it was.\<close>

theorem failed_startup_changes_pool:
  "signalled example_env_failing = ErrorSignal (Error ''failed'') \<and>
   fst (create_instance example_env_failing 3 example_world) = Rejected (Error ''failed'') \<and>
   instances (snd (create_instance example_env_failing 3 example_world)) \<noteq>
     instances example_world"
proof -
  have n: "\<not> name_exists example_world (Name (defs example_world ! 3))"
    using example_passes_D[of example_env] by (simp add: passes_checks_def example_ensure)
  show ?thesis
    by (simp add: create_instance_after_checks[OF example_ensure n] example_env_failing_def
        example_env_def prepare_instance_frame example_world_fields)
qed

text \<open>
  Claim C2, as amended. \<^verbatim>\<open>next()\<close> returns the first element of the array after
  the rotation: under \<^verbatim>\<open>round_robin\<close>, for a pool whose order is \<open>[a, b, c]\<close>, one
  call returns \<open>b\<close> and leaves the order \<open>[b, c, a]\<close>; four consecutive calls return
  \<open>b\<close>, \<open>c\<close>, \<open>a\<close> and \<open>b\<close> again, so that three consecutive calls return each instance
  once.
\<close>

theorem round_robin_next_returns_new_first:
  assumes "load_balance_method (pool w) = ''round_robin''" and "instances w = [a, b, c]"
  shows "fst (next_instance lib r1 w) = Inr (Some b) \<and>
         instances (snd (next_instance lib r1 w)) = [b, c, a] \<and>
         fst (next_calls lib [r1, r2, r3, r4] w) =
           [Inr (Some b), Inr (Some c), Inr (Some a), Inr (Some b)]"
  using assms
  by (simp add: next_round_robin array_rotate_three array_index_def)

text \<open>The theorem on the concrete pool, whose order is A, B, C.\<close>

theorem round_robin_three_instances_witness:
  "load_balance_method (pool example_world) = ''round_robin'' \<and>
   instances example_world = [0, 1, 2] \<and>
   fst (next_instance example_lib 0 example_world) = Inr (Some 1) \<and>
   instances (snd (next_instance example_lib 0 example_world)) = [1, 2, 0] \<and>
   fst (next_calls example_lib [0, 0, 0, 0] example_world) =
     [Inr (Some 1), Inr (Some 2), Inr (Some 0), Inr (Some 1)]"
  using
    round_robin_next_returns_new_first[of example_world 0 1 2 example_lib 0 0 0 0]
  by (simp add: example_method example_world_fields)

text \<open>Claim C2 as stated fails there: the first call does not return A.\<close>

theorem round_robin_first_call_not_old_first:
  "load_balance_method (pool example_world) = ''round_robin'' \<and>
   instances example_world = [0, 1, 2] \<and>
   fst (next_instance example_lib 0 example_world) \<noteq> Inr (Some 0)"
  by (simp add: next_round_robin[OF example_method] example_method example_world_fields
      array_rotate_three array_index_def)

text \<open>
  Claim C3, as amended. For a definition whose name is a non-empty string that an
  instance of the pool carries, and when the data directory exists or can be created,
  \<^verbatim>\<open>create_instance\<close> rejects with the Error \<^verbatim>\<open>Instance named n already exists\<close>.
  The state after the call is the state before it, but for the data directory the call
  may have created: no id is drawn, no configuration object and no handle is made, and
  the pool's array, its weighted list, the definition and the stores are as before.
\<close>

theorem create_instance_duplicate_name_rejected:
  assumes "Name (defs w ! d) = Some n" and "n \<noteq> []" and "Some n \<in> set (instance_names w)"
    and "data_directory (pool w) \<in> set (fs_dirs w) \<or> mkdir_error env = None"
  shows "create_instance env d w =
     (Rejected (Error (''Instance named '' @ n @ '' already exists'')),
      w\<lparr> fs_dirs := (if data_directory (pool w) \<in> set (fs_dirs w) then fs_dirs w
                       else data_directory (pool w) # fs_dirs w) \<rparr>)"
proof -
  let ?w1 = "w\<lparr> fs_dirs := (if data_directory (pool w) \<in> set (fs_dirs w) then fs_dirs w
                       else data_directory (pool w) # fs_dirs w) \<rparr>"
  have w1: "ensure_data_directory env w = Inr ?w1"
    using assms(4) by (auto simp: ensure_data_directory_def)
  have names: "instance_names ?w1 = instance_names w"
    by (rule instance_names_cong) simp_all
  have "name_exists ?w1 (Name (defs ?w1 ! d))"
    using assms(1-3) by (simp add: name_exists_def names)
  then show ?thesis
    using assms(1) by (simp add: create_instance_def w1 already_exists_message_def)
qed

text \<open>The theorem at the second definition named A of the concrete pool.\<close>

theorem duplicate_name_A_witness:
  "Name (defs example_world ! 4) = Some ''A'' \<and>
   Some ''A'' \<in> set (instance_names example_world) \<and>
   data_directory (pool example_world) \<in> set (fs_dirs example_world) \<and>
   create_instance example_env 4 example_world =
     (Rejected (Error ''Instance named A already exists''), example_world)"
proof -
  have n: "Name (defs example_world ! 4) = Some ''A''" by (simp add: example_world_def)
  have m: "Some ''A'' \<in> set (instance_names example_world)" by (simp add: example_world_fields)
  have d: "data_directory (pool example_world) \<in> set (fs_dirs example_world) \<or>
      mkdir_error example_env = None"
    by (simp add: example_world_fields)
  show ?thesis
    using
      create_instance_duplicate_name_rejected[OF n _ m d]
      n m
    by (simp add: example_world_fields)
qed

text \<open>Claim C3 as stated fails for the empty name, which line 235 tests as falsy: a
  definition with the empty name is accepted although an instance of the pool carries
  that name, and the pool grows.\<close>

theorem duplicate_empty_name_accepted:
  "Name (defs example_world_blank ! 5) = Some [] \<and>
   Some [] \<in> set (instance_names example_world_blank) \<and>
   fst (create_instance example_env 5 example_world_blank) = Resolved 3 \<and>
   instances (snd (create_instance example_env 5 example_world_blank)) = [0, 1, 2, 3]"
proof -
  have n: "\<not> name_exists example_world_blank (Name (defs example_world_blank ! 5))"
    by (simp add: name_exists_def example_blank_fields)
  show ?thesis
    by (simp add: create_instance_after_checks[OF example_blank_fields(5) n] example_env_def
        prepare_instance_frame example_blank_fields Let_def instances_emitted)
qed



text \<open>
  Claim C5, as amended. The claim says that no selection under the weighted method ever
  reads a weighted list built for other members. \<^verbatim>\<open>create_instance\<close> clears the list
  on line 238, before it awaits \<^verbatim>\<open>instance.create()\<close>, and pushes on line 249 without
  clearing it again: a selection under the weighted method that runs in between builds
  a list which the push makes stale. So: as long as no selection under the weighted
  method runs while a creation is between its invalidation and its push, and whatever
  the order in which calls and continuations of suspended calls otherwise follow each
  other, the weighted list attached to the pool's array was built for the members the
  array has (or there is none), and every operation that changes the pool's sequence
  leaves the array without a weighted list. Calls taken one at a time meet the
  condition. The draw of \<^verbatim>\<open>js-weighted-list\<close> is assumed to return, asked for all of
  them, the entries of its list.
\<close>

theorem weighted_list_current_when_selection_apart:
  assumes "peek_permutes lib" and "creation_safe s" and "selection_apart lib ops s"
  shows "weighted_list_ok (the_world (run lib ops s)) \<and>
         creation_safe (run lib ops s) \<and>
         (is_membership_op op \<and>
          instances (the_world (step lib op (run lib ops s))) \<noteq> instances (the_world (run lib ops s))
            \<longrightarrow> weighted_list (priv_instances (pool (the_world (step lib op (run lib ops s))))) = None)"
proof -
  have safe: "creation_safe (run lib ops s)"
    using assms by (rule run_safe)
  then show ?thesis
    using creation_safe_ok[OF safe] membership_step_invalidates[OF safe] by blast
qed

text \<open>The theorem on the concrete pool under the weighted method: a creation starts and
  pushes, a selection then builds the weighted list for the four members, and the
  removal of the first instance discards it.\<close>

theorem selection_after_push_witness:
  "peek_permutes example_lib \<and> creation_safe example_system \<and>
   selection_apart example_lib
     [CreateInstance example_env 3, Resume example_env 0, Next 7] example_system \<and>
   instances (the_world
     (run example_lib [CreateInstance example_env 3, Resume example_env 0, Next 7] example_system)) =
     [3, 2, 1, 0] \<and>
   weighted_list (priv_instances (pool (the_world
     (run example_lib [CreateInstance example_env 3, Resume example_env 0, Next 7] example_system)))) =
     Some [(Some ''a1'', JNum 1, 0), (Some ''b2'', JNum 100, 1), (Some ''c3'', JNum 1, 2),
           (Some ''d4'', JUndefined, 3)] \<and>
   weighted_list_ok (the_world
     (run example_lib [CreateInstance example_env 3, Resume example_env 0, Next 7] example_system)) \<and>
   is_membership_op (Remove example_exits 1) \<and>
   instances (the_world (step example_lib (Remove example_exits 1)
     (run example_lib [CreateInstance example_env 3, Resume example_env 0, Next 7] example_system))) =
     [2, 1, 0] \<and>
   weighted_list (priv_instances (pool (the_world (step example_lib (Remove example_exits 1)
     (run example_lib [CreateInstance example_env 3, Resume example_env 0, Next 7] example_system))))) =
     None"
proof -
  have r: "run example_lib [CreateInstance example_env 3, Resume example_env 0, Next 7] example_system =
      \<lparr> the_world =
          set_instances
            \<lparr> elems = [3, 2, 1, 0],
              weighted_list = Some [(Some ''a1'', JNum 1, 0), (Some ''b2'', JNum 100, 1),
                                    (Some ''c3'', JNum 1, 2), (Some ''d4'', JUndefined, 3)] \<rparr>
            (push_instance 3 (snd (prepare_instance example_env 3 example_world_weighted))),
        tasks = [AtSignal 3] \<rparr>"
    using example_run_apart
    by (simp del: step.simps add: run_def example_next_after_push step.simps(8))
  have selected: "instances (the_world
      (run example_lib [CreateInstance example_env 3, Resume example_env 0, Next 7] example_system)) =
      [3, 2, 1, 0]"
    by (simp add: r)
  have built: "weighted_list (priv_instances (pool (the_world
      (run example_lib [CreateInstance example_env 3, Resume example_env 0, Next 7] example_system)))) =
      Some [(Some ''a1'', JNum 1, 0), (Some ''b2'', JNum 100, 1), (Some ''c3'', JNum 1, 2),
            (Some ''d4'', JUndefined, 3)]"
    by (simp add: r)
  have removed: "instances (the_world (step example_lib (Remove example_exits 1)
      (run example_lib [CreateInstance example_env 3, Resume example_env 0, Next 7] example_system))) =
      [2, 1, 0]"
    by (simp add: r pool_remove_def Let_def array_splice_def)
  have changed: "instances (the_world (step example_lib (Remove example_exits 1)
      (run example_lib [CreateInstance example_env 3, Resume example_env 0, Next 7] example_system))) \<noteq>
      instances (the_world
      (run example_lib [CreateInstance example_env 3, Resume example_env 0, Next 7] example_system))"
    unfolding removed selected by simp
  have member: "is_membership_op (Remove example_exits 1)" by simp
  note claim =
    weighted_list_current_when_selection_apart[OF example_lib_permutes example_system_safe example_apart, of "Remove example_exits 1"]
  have ok: "weighted_list_ok (the_world
      (run example_lib [CreateInstance example_env 3, Resume example_env 0, Next 7] example_system))"
    using claim by blast
  have none: "weighted_list (priv_instances (pool (the_world (step example_lib (Remove example_exits 1)
      (run example_lib [CreateInstance example_env 3, Resume example_env 0, Next 7] example_system))))) =
      None"
    using claim member changed by blast
  show ?thesis
    using example_lib_permutes example_system_safe example_apart selected built ok member
      removed none
    by blast
qed

text \<open>Claim C5 as stated fails on the concrete pool under the weighted method: a selection
  runs while the creation of D waits for \<^verbatim>\<open>instance.create()\<close>; the push then changes
  the pool's sequence and leaves the list of three entries attached to the array of
  four, and the next selection reads it; the draw, which here throws when it is asked
  for more entries than the list has, as that of \<^verbatim>\<open>js-weighted-list\<close> does, throws.\<close>

theorem selection_during_creation_leaves_stale_list:
  "is_membership_op (Resume example_env 0) \<and>
   instances (the_world (run example_lib [CreateInstance example_env 3, Next 7] example_system)) =
     [2, 1, 0] \<and>
   instances (the_world
     (run example_lib [CreateInstance example_env 3, Next 7, Resume example_env 0] example_system)) =
     [2, 1, 0, 3] \<and>
   weighted_list (priv_instances (pool (the_world
     (run example_lib [CreateInstance example_env 3, Next 7, Resume example_env 0] example_system)))) =
     Some [(Some ''a1'', JNum 1, 0), (Some ''b2'', JNum 100, 1), (Some ''c3'', JNum 1, 2)] \<and>
   \<not> weighted_list_ok (the_world
     (run example_lib [CreateInstance example_env 3, Next 7, Resume example_env 0] example_system)) \<and>
   fst (next_instance example_lib 7 (the_world
     (run example_lib [CreateInstance example_env 3, Next 7, Resume example_env 0] example_system))) =
     Inl (Thrown ''Stack underflow'')"
proof -
  have two: "instances (the_world
      (run example_lib [CreateInstance example_env 3, Next 7] example_system)) = [2, 1, 0]"
    by (simp del: step.simps add: run_def example_step_create example_next_in_window step.simps(8))
  have differ: "mset [0, 1, 2 :: nat] \<noteq> mset [2, 1, 0, 3]"
  proof
    assume "mset [0, 1, 2 :: nat] = mset [2, 1, 0, 3]"
    then have "size (mset [0, 1, 2 :: nat]) = size (mset [2, 1, 0, 3 :: nat])" by simp
    then show False by simp
  qed
  have stale: "\<not> weighted_list_ok (the_world
      (run example_lib [CreateInstance example_env 3, Next 7, Resume example_env 0] example_system))"
    using differ
    by (simp add: example_run_interleaved weighted_list_ok_def entry_data_def
        push_instance_def)
  have underflow: "fst (next_instance example_lib 7 (the_world
      (run example_lib [CreateInstance example_env 3, Next 7, Resume example_env 0] example_system))) =
      Inl (Thrown ''Stack underflow'')"
    by (simp add: example_run_interleaved next_instance_def load_balance_methods_def
        weighted_def push_instance_def example_prepared_values example_lib_fields)
  show ?thesis
    using two stale underflow
    by (simp add: example_run_interleaved)
qed

text \<open>
  Claim C6. For every label \<open>L\<close>, \<^verbatim>\<open>pool.groups[L]\<close> is the sequence of the pool's
  current instances whose label list contains \<open>L\<close>, sorted by name by a stable sort
  (names compared by character code, instances without a name last), and empty when no
  instance carries \<open>L\<close>. The view is computed from the state it is accessed in: all it
  holds are members of the pool in that state.
\<close>

theorem group_view_is_sorted_members_with_label:
  "view_instances (groups w L) =
     sort_key (\<lambda>i. name_key (instance_name w i))
       (filter (\<lambda>i. L \<in> set (instance_group w i)) (instances w)) \<and>
   group_name (groups w L) = L \<and>
   sorted (map (\<lambda>i. name_key (instance_name w i)) (view_instances (groups w L))) \<and>
   mset (view_instances (groups w L)) =
     mset (filter (\<lambda>i. L \<in> set (instance_group w i)) (instances w)) \<and>
   set (view_instances (groups w L)) \<subseteq> set (instances w)"
proof -
  have "filter (\<lambda>i. L \<in> set (instance_group w i)) (instances w) = []"
    if "L \<notin> set (group_names w)"
    using that by (auto simp: group_names_set filter_empty_conv)
  then have eq: "view_instances (groups w L) =
     sort_key (\<lambda>i. name_key (instance_name w i))
       (filter (\<lambda>i. L \<in> set (instance_group w i)) (instances w))"
    by (simp add: groups_def lodash_sortBy_def)
  show ?thesis
    unfolding eq by (auto simp: groups_def)
qed

text \<open>The theorem on the concrete pool: the views of a label two instances carry, of a label
  one carries and of an unknown label, and the view after instance A has been removed.\<close>

theorem group_view_example_witness:
  "view_instances (groups example_world ''g'') = [0, 1] \<and>
   view_instances (groups example_world ''h'') = [1] \<and>
   view_instances (groups example_world ''x'') = [] \<and>
   view_instances (groups (snd (remove_at example_exits 0 example_world)) ''g'') = [1]"
proof -
  have r: "snd (remove_at example_exits 0 example_world) =
      set_instances \<lparr> elems = [1, 2], weighted_list = None \<rparr> example_world"
    by (simp add: remove_at_def array_splice_def Let_def invalidate_weighted_list_def
        set_instances_def example_world_def)
  have g: "instance_group example_world 0 = [''g'']"
    "instance_group example_world (Suc 0) = [''g'', ''h'']"
    "instance_group example_world 2 = []"
    "instance_name example_world 0 = Some ''A''"
    "instance_name example_world (Suc 0) = Some ''B''"
    by (simp_all add: instance_group_def instance_name_def definition_of_def example_world_def)
  have g': "instance_group (set_instances arr example_world) = instance_group example_world"
    "instance_name (set_instances arr example_world) = instance_name example_world" for arr
    by (auto simp: instance_group_def instance_name_def definition_of_def fun_eq_iff)
  show ?thesis
    using
      group_view_is_sorted_members_with_label[of example_world "''g''"]
      group_view_is_sorted_members_with_label[of example_world "''h''"]
      group_view_is_sorted_members_with_label[of example_world "''x''"]
      group_view_is_sorted_members_with_label[of "snd (remove_at example_exits 0 example_world)" "''g''"]
    by (simp add: r g g' example_world_fields name_key_def)
qed

text \<open>
  Claim C7. For an instance and a label \<open>L\<close>: adding \<open>L\<close> twice through the view's
  \<^verbatim>\<open>add\<close> leaves \<open>L\<close> exactly once in the instance's label list, the second call
  changing nothing; and removing through the view's \<^verbatim>\<open>remove\<close> a label the instance
  does not carry returns without an error and leaves the state as it was.
\<close>

theorem group_label_add_twice_remove_absent:
  assumes "i < length (procs w)" and "proc_definition (procs w ! i) < length (defs w)"
  shows "(\<exists>w1 w2. view_add (groups w L) (Some i) w = Inr w1 \<and>
            view_add (groups w1 L) (Some i) w1 = Inr w2 \<and>
            count_list (instance_group w1 i) L = 1 \<and>
            count_list (instance_group w2 i) L = 1 \<and>
            instance_group w2 i = instance_group w1 i) \<and>
         (L \<notin> set (instance_group w i) \<longrightarrow> view_remove (groups w L) (Some i) w = Inr w)"
proof -
  let ?w1 = "set_group i (Some (lodash_union (instance_group w i) [L])) w"
  let ?w2 = "set_group i (Some (lodash_union (instance_group ?w1 i) [L])) ?w1"
  have g1: "instance_group ?w1 i = lodash_union (instance_group w i) [L]"
    using assms(2) by (simp add: instance_group_set_group)
  have g2: "instance_group ?w2 i = lodash_union (instance_group ?w1 i) [L]"
    using assms(2) by (simp add: instance_group_set_group)
  have c1: "count_list (instance_group ?w1 i) L = 1"
    unfolding g1 by (simp add: lodash_union_def count_lodash_uniq)
  have g21: "instance_group ?w2 i = instance_group ?w1 i"
    by (rule trans[OF g2]) (simp only: g1 lodash_union_twice)
  have c2: "count_list (instance_group ?w2 i) L = 1"
    by (simp only: g21 c1)
  have add: "view_add (groups w L) (Some i) w = Inr ?w1"
    "view_add (groups ?w1 L) (Some i) ?w1 = Inr ?w2"
    by (simp_all add: view_add_def groups_def add_instance_to_group_def)
  have rem: "view_remove (groups w L) (Some i) w = Inr w" if "L \<notin> set (instance_group w i)"
  proof -
    have "lodash_remove (Group (definition_of w i)) (\<lambda>g. g = L) = Group (definition_of w i)"
      using that
      by (cases "Group (definition_of w i)")
        (auto simp: lodash_remove_def instance_group_def filter_id_conv)
    then show ?thesis
      by (simp add: view_remove_def groups_def remove_instance_from_group_def set_group_same)
  qed
  show ?thesis
    using add c1 c2 g21 rem by blast
qed

text \<open>The theorem at instance A of the concrete pool and a label it does not carry.\<close>

theorem group_label_example_witness:
  "0 < length (procs example_world) \<and>
   proc_definition (procs example_world ! 0) < length (defs example_world) \<and>
   ''h'' \<notin> set (instance_group example_world 0) \<and>
   (\<exists>w1 w2. view_add (groups example_world ''h'') (Some 0) example_world = Inr w1 \<and>
      view_add (groups w1 ''h'') (Some 0) w1 = Inr w2 \<and>
      count_list (instance_group w2 0) ''h'' = 1) \<and>
   view_remove (groups example_world ''h'') (Some 0) example_world = Inr example_world"
proof -
  have a: "0 < length (procs example_world)"
    and b: "proc_definition (procs example_world ! 0) < length (defs example_world)"
    and c: "''h'' \<notin> set (instance_group example_world 0)"
    by (simp_all add: example_world_def instance_group_def definition_of_def)
  show ?thesis
    using
      group_label_add_twice_remove_absent[OF a b, of "''h''"]
      a b c
    by blast
qed

text \<open>
  Claim C8. The claim says that \<^verbatim>\<open>remove_by_name\<close> with a name no instance carries
  rejects with a not-found error and leaves the pool as it was. The code leaves the pool
  as it was, but what it rejects with is a \<^verbatim>\<open>ReferenceError\<close>: the message template
  on line 300 reads the variable \<^verbatim>\<open>name\<close>, which \<^verbatim>\<open>remove_by_name\<close> does not
  declare (its parameter is \<^verbatim>\<open>instance_name\<close>), so the Error with the message
  \<^verbatim>\<open>Instance ... not found\<close> is never constructed. The sibling methods
  \<^verbatim>\<open>new_identity_by_name\<close>, \<^verbatim>\<open>get_config_by_name\<close> and \<^verbatim>\<open>signal_by_name\<close>,
  whose parameter is \<^verbatim>\<open>name\<close>, throw that Error. The call is evaluated here on the
  concrete pool with the unknown name Z.
\<close>

theorem remove_by_name_throws_reference_error:
  "Some ''Z'' \<notin> set (instance_names example_world) \<and>
   remove_by_name example_exits ''Z'' example_world =
     (Rejected (ReferenceError ''name is not defined''), example_world)"
  by (simp add: unknown_name_is_reference_error example_world_fields)

text \<open>
  Claim C9. When a call of \<^verbatim>\<open>create_instance\<close> gets past the data directory and the
  name check, the definition object the caller passed is changed: its \<^verbatim>\<open>Config\<close>
  refers to a new configuration object, whose properties are those of the default
  overridden by those of the caller's \<^verbatim>\<open>Config\<close>, but for \<^verbatim>\<open>DataDirectory\<close>: that
  property is kept when the merge gives it a truthy value and is otherwise set to
  \<^verbatim>\<open>path.join(data_directory, Name || id)\<close>. \<^verbatim>\<open>Name\<close>, \<^verbatim>\<open>Group\<close> and
  \<^verbatim>\<open>Weight\<close> are as before.
\<close>

theorem create_instance_mutates_definition:
  assumes "passes_checks env d w" and "valid_refs w d"
  shows "Config (defs (snd (create_instance env d w)) ! d) = Some (Suc (length (cfgs w))) \<and>
         Name (defs (snd (create_instance env d w)) ! d) = Name (defs w ! d) \<and>
         Group (defs (snd (create_instance env d w)) ! d) = Group (defs w ! d) \<and>
         Weight (defs (snd (create_instance env d w)) ! d) = Weight (defs w ! d) \<and>
         map_of (cfgs (snd (create_instance env d w)) ! Suc (length (cfgs w))) =
           (map_of (default_content w) ++ map_of (override_content w d))
             (''DataDirectory'' \<mapsto>
                (let current = (case (map_of (default_content w) ++ map_of (override_content w d))
                                       ''DataDirectory'' of
                                  None \<Rightarrow> JUndefined | Some v \<Rightarrow> v)
                 in if truthy current then current
                    else JStr (path_join env (data_directory (pool w))
                                 (name_or_id (Name (defs w ! d)) (nanoid_result env)))))"
proof -
  obtain w1 where w1: "ensure_data_directory env w = Inr w1"
    and fresh: "\<not> name_exists w1 (Name (defs w1 ! d))"
    using assms(1) by (rule passes_checks_obtain)
  note same = ensure_data_directory_same[OF w1] ensure_data_directory_fields[OF w1]
  have d: "d < length (defs w)"
    and c: "case Config (defs w1 ! d) of None \<Rightarrow> True | Some a \<Rightarrow> a < length (cfgs w1)"
    using assms(2) by (simp_all add: valid_refs_def same cong: option.case_cong)
  have cfg: "cfgs (snd (prepare_instance env d w1)) ! Suc (length (cfgs w)) =
     (let m = lodash_extend (default_content w) (override_content w d);
          current = get_prop m ''DataDirectory''
      in set_prop m ''DataDirectory''
           (if truthy current then current
            else JStr (path_join env (data_directory (pool w))
                         (name_or_id (Name (defs w ! d)) (nanoid_result env)))))"
    using prepare_instance_cfg[OF c, of env] by (simp add: same Let_def)
  have defs': "defs (snd (create_instance env d w)) =
      (defs w)[d := (defs w ! d)\<lparr> Config := Some (Suc (length (cfgs w))) \<rparr>]"
    by (simp add: create_instance_world_cases[OF w1 fresh] prepare_instance_frame same)
  have cfgs': "cfgs (snd (create_instance env d w)) = cfgs (snd (prepare_instance env d w1))"
    by (simp add: create_instance_world_cases[OF w1 fresh])
  show ?thesis
    using d
    by (simp add: defs' cfgs' cfg Let_def set_prop_def update_conv'
        lodash_extend_lookup get_prop_def)
qed

text \<open>The theorem at definition D of the concrete pool, whose \<^verbatim>\<open>Config\<close> has no
  \<^verbatim>\<open>DataDirectory\<close>.\<close>

theorem create_instance_definition_D_witness:
  "passes_checks example_env 3 example_world \<and> valid_refs example_world 3 \<and>
   Config (defs (snd (create_instance example_env 3 example_world)) ! 3) = Some 6 \<and>
   map_of (cfgs (snd (create_instance example_env 3 example_world)) ! 6) =
     [''Log'' \<mapsto> JStr ''notice'', ''P'' \<mapsto> JStr ''20'', ''DataDirectory'' \<mapsto> JStr ''/t/D'']"
  using
    create_instance_mutates_definition[OF example_passes_D example_valid_D, of example_env]
  apply (simp add: example_passes_D example_valid_D example_world_fields)
  apply (simp add: default_content_def override_content_def example_world_def example_env_def
      name_or_id_def)
  done

text \<open>
  Claim C10. Under \<^verbatim>\<open>round_robin\<close>, \<^verbatim>\<open>next()\<close> on an empty pool does not throw:
  the rotation of the empty array is the empty array, \<^verbatim>\<open>next()\<close> returns
  \<^verbatim>\<open>undefined\<close> and the state is as it was.
\<close>

theorem next_instance_on_empty_pool:
  assumes "load_balance_method (pool w) = ''round_robin''" and "instances w = []"
  shows "next_instance lib rnd w = (Inr None, w) \<and> array_rotate (instances w) 1 = []"
  using assms
  by (simp add: next_round_robin array_rotate_empty array_index_def set_instances_def instances_def)

text \<open>The theorem on the concrete pool once it has been emptied.\<close>

theorem next_instance_empty_pool_witness:
  "load_balance_method (pool (set_instances \<lparr> elems = [], weighted_list = None \<rparr> example_world))
     = ''round_robin'' \<and>
   instances (set_instances \<lparr> elems = [], weighted_list = None \<rparr> example_world) = [] \<and>
   next_instance example_lib 0 (set_instances \<lparr> elems = [], weighted_list = None \<rparr> example_world)
     = (Inr None, set_instances \<lparr> elems = [], weighted_list = None \<rparr> example_world) \<and>
   array_rotate ([] :: addr list) 1 = []"
  using
    next_instance_on_empty_pool[of "set_instances \<lparr> elems = [], weighted_list = None \<rparr> example_world" example_lib 0]
  by (simp add: example_method)

end
